theory Spec2Isabelle
  imports Complex_Main "HOL-Library.List_Lexorder" "HOL-Library.Char_ord"
begin

section \<open>Python errors as values\<close>

text \<open>
  Every raise of the source is a branch of the model.  Python floats are read as
  reals, Python integers as \<open>int\<close>.
\<close>

datatype error =
    AssertionError
  | ZeroDivisionError
  | UnboundLocalError
  | AttributeError
  | TypeError
  | IndexError
  | OutOfFuel

section \<open>Truth values and the truth-value functions (NALInferenceRules.py)\<close>

datatype TruthValue = TruthValue (frequency: real) (confidence: real)

text \<open>\<open>band(*argv)\<close>: the loop \<open>res = res * arg\<close> started at 1.\<close>

definition band :: "real list \<Rightarrow> real" where
  "band argv = fold (\<lambda>arg res. res * arg) argv 1"

text \<open>\<open>bor(*argv)\<close>: the loop \<open>res = res * (1 - arg)\<close> started at 1, then \<open>1 - res\<close>.\<close>

definition bor :: "real list \<Rightarrow> real" where
  "bor argv = 1 - fold (\<lambda>arg res. res * (1 - arg)) argv 1"

definition bnot :: "real \<Rightarrow> real" where
  "bnot arg = 1 - arg"

text \<open>
  Python's boolean operator \<open>not\<close> on a number: \<open>True\<close> exactly when the number is
  zero.  In arithmetic \<open>True\<close> counts as 1 and \<open>False\<close> as 0.
\<close>

definition py_not :: "real \<Rightarrow> bool" where
  "py_not x = (x = 0)"

definition py_bool :: "bool \<Rightarrow> real" where
  "py_bool b = (if b then 1 else 0)"

text \<open>
  \<open>Config.k\<close> is not part of the sources at hand; the functions that read it take it
  as their first argument \<open>k\<close>.
\<close>

definition get_confidence_from_evidence :: "real \<Rightarrow> real \<Rightarrow> error + real" where
  "get_confidence_from_evidence k w =
     (if w + k = 0 then Inl ZeroDivisionError else Inr (w / (w + k)))"

definition get_truthvalue_from_evidence :: "real \<Rightarrow> real \<Rightarrow> real \<Rightarrow> error + (real \<times> real)" where
  "get_truthvalue_from_evidence k wp w =
     (if wp = w then
        (case get_confidence_from_evidence k w of
           Inl e \<Rightarrow> Inl e
         | Inr c \<Rightarrow> Inr (1, c))
      else if w = 0 then Inl ZeroDivisionError
      else
        (case get_confidence_from_evidence k w of
           Inl e \<Rightarrow> Inl e
         | Inr c \<Rightarrow> Inr (wp / w, c)))"

definition get_evidence_fromfreqconf :: "real \<Rightarrow> real \<Rightarrow> real \<Rightarrow> error + (real \<times> real \<times> real)" where
  "get_evidence_fromfreqconf k f c =
     (if 1 - c = 0 then Inl ZeroDivisionError
      else
        (let wp = k * f * c / (1 - c);
             w = k * c / (1 - c)
         in Inr (wp, w, w - wp)))"

definition mk_truth :: "error + (real \<times> real) \<Rightarrow> error + TruthValue" where
  "mk_truth r = (case r of Inl e \<Rightarrow> Inl e | Inr (f, c) \<Rightarrow> Inr (TruthValue f c))"

definition F_Revision :: "real \<Rightarrow> real \<Rightarrow> real \<Rightarrow> real \<Rightarrow> real \<Rightarrow> error + TruthValue" where
  "F_Revision k wp1 wn1 wp2 wn2 =
     (let wp = wp1 + wp2;
          wn = wn1 + wn2;
          w = wp + wn
      in mk_truth (get_truthvalue_from_evidence k wp w))"

definition F_Negation :: "real \<Rightarrow> real \<Rightarrow> TruthValue" where
  "F_Negation f c = TruthValue (1 - f) c"

definition F_Conversion :: "real \<Rightarrow> real \<Rightarrow> real \<Rightarrow> error + TruthValue" where
  "F_Conversion k f c =
     (let wp = band [f, c];
          w = wp
      in mk_truth (get_truthvalue_from_evidence k wp w))"

definition F_Contraposition :: "real \<Rightarrow> real \<Rightarrow> real \<Rightarrow> error + TruthValue" where
  "F_Contraposition k f c =
     (let wp = 0;
          wn = band [bnot f, c];
          w = wn
      in mk_truth (get_truthvalue_from_evidence k wp w))"

definition F_Deduction :: "real \<Rightarrow> real \<Rightarrow> real \<Rightarrow> real \<Rightarrow> TruthValue" where
  "F_Deduction f1 c1 f2 c2 = TruthValue (band [f1, f2]) (band [f1, f2, c1, c2])"

definition F_Analogy :: "real \<Rightarrow> real \<Rightarrow> real \<Rightarrow> real \<Rightarrow> TruthValue" where
  "F_Analogy f1 c1 f2 c2 = TruthValue (band [f1, f2]) (band [f2, c1, c2])"

definition F_Resemblance :: "real \<Rightarrow> real \<Rightarrow> real \<Rightarrow> real \<Rightarrow> TruthValue" where
  "F_Resemblance f1 c1 f2 c2 = TruthValue (band [f1, f2]) (band [bor [f1, f2], c1, c2])"

definition F_Abduction :: "real \<Rightarrow> real \<Rightarrow> real \<Rightarrow> real \<Rightarrow> real \<Rightarrow> error + TruthValue" where
  "F_Abduction k f1 c1 f2 c2 =
     (let wp = band [f1, f2, c1, c2];
          w = band [f1, c1, c2]
      in mk_truth (get_truthvalue_from_evidence k wp w))"

definition F_Induction :: "real \<Rightarrow> real \<Rightarrow> real \<Rightarrow> real \<Rightarrow> real \<Rightarrow> error + TruthValue" where
  "F_Induction k f1 c1 f2 c2 =
     (let wp = band [f1, f2, c1, c2];
          w = band [f2, c1, c2]
      in mk_truth (get_truthvalue_from_evidence k wp w))"

definition F_Exemplification :: "real \<Rightarrow> real \<Rightarrow> real \<Rightarrow> real \<Rightarrow> real \<Rightarrow> error + TruthValue" where
  "F_Exemplification k f1 c1 f2 c2 =
     (let wp = band [f1, f2, c1, c2];
          w = wp
      in mk_truth (get_truthvalue_from_evidence k wp w))"

definition F_Comparison :: "real \<Rightarrow> real \<Rightarrow> real \<Rightarrow> real \<Rightarrow> real \<Rightarrow> error + TruthValue" where
  "F_Comparison k f1 c1 f2 c2 =
     (let wp = band [f1, f2, c1, c2];
          w = band [bor [f1, f2], c1, c2]
      in mk_truth (get_truthvalue_from_evidence k wp w))"

definition F_Intersection :: "real \<Rightarrow> real \<Rightarrow> real \<Rightarrow> real \<Rightarrow> TruthValue" where
  "F_Intersection f1 c1 f2 c2 = TruthValue (band [f1, f2]) (band [c1, c2])"

definition F_Union :: "real \<Rightarrow> real \<Rightarrow> real \<Rightarrow> real \<Rightarrow> TruthValue" where
  "F_Union f1 c1 f2 c2 = TruthValue (bor [f1, f2]) (band [c1, c2])"

text \<open>
  \<open>F_Difference\<close> computes \<open>f3 = band(f1, not (f2))\<close> with Python's boolean \<open>not\<close>
  (not \<open>bnot\<close>), and \<open>c3 = band(c1, c2)\<close>.
\<close>

definition F_Difference :: "real \<Rightarrow> real \<Rightarrow> real \<Rightarrow> real \<Rightarrow> TruthValue" where
  "F_Difference f1 c1 f2 c2 =
     TruthValue (band [f1, py_bool (py_not f2)]) (band [c1, c2])"

text \<open>
  \<open>F_Projection\<close> reads the global cycle counter
  (\<open>Global.Global.get_current_cycle_number()\<close>); it is the argument \<open>T_c\<close> here.
  Occurrence times and the cycle counter are Python integers, and \<open>/\<close> on them
  raises \<open>ZeroDivisionError\<close> when the divisor is zero.
\<close>

definition F_Projection :: "int \<Rightarrow> real \<Rightarrow> real \<Rightarrow> int \<Rightarrow> int \<Rightarrow> error + TruthValue" where
  "F_Projection T_c frequency' confidence' t_B t_T =
     (if \<bar>t_B - T_c\<bar> + \<bar>t_T - T_c\<bar> = 0 then Inl ZeroDivisionError
      else
        (let k_c = real_of_int \<bar>t_B - t_T\<bar> / real_of_int (\<bar>t_B - T_c\<bar> + \<bar>t_T - T_c\<bar>);
             projected_confidence = (1 - k_c) * confidence'
         in Inr (TruthValue frequency' projected_confidence)))"

definition F_Eternalization :: "real \<Rightarrow> real \<Rightarrow> real \<Rightarrow> error + TruthValue" where
  "F_Eternalization k temporal_frequency temporal_confidence =
     (if k + temporal_confidence = 0 then Inl ZeroDivisionError
      else Inr (TruthValue temporal_frequency (1 / (k + temporal_confidence))))"

definition Expectation :: "real \<Rightarrow> real \<Rightarrow> real" where
  "Expectation f c = c * (f - 1 / 2) + 1 / 2"

section \<open>Syntax tables (NALSyntax)\<close>

text \<open>
  The module \<open>NALSyntax\<close> is not among the sources at hand.  Its enumerations and the
  predicates over them are written down here from the specification's wire format and
  data model.
\<close>

datatype Copula =
    Inheritance
  | Similarity
  | Implication
  | Equivalence
  | PredictiveImplication
  | ConcurrentImplication
  | RetrospectiveImplication
  | PredictiveEquivalence
  | ConcurrentEquivalence

text \<open>
  The connectors whose names are also names of inference rules carry the suffix
  \<open>_connector\<close>.
\<close>

datatype TermConnector =
    ExtensionalIntersection_connector
  | IntensionalIntersection_connector
  | ExtensionalDifference_connector
  | IntensionalDifference_connector
  | Product
  | ExtensionalImage_connector
  | IntensionalImage_connector
  | ImagePlaceHolder
  | Negation_connector
  | Conjunction
  | Disjunction
  | SequentialConjunction
  | ParallelConjunction
  | ExtensionalSetStart
  | ExtensionalSetEnd
  | IntensionalSetStart
  | IntensionalSetEnd
  | Array

text \<open>
  Modelled from the spec: \<open>Copula.value\<close>, the three-character tokens of the wire
  format, in the order the specification lists the copulas.
\<close>

fun Copula_value :: "Copula \<Rightarrow> string" where
  "Copula_value Inheritance = ''-->''"
| "Copula_value Similarity = ''<->''"
| "Copula_value Implication = ''==>''"
| "Copula_value Equivalence = ''<=>''"
| "Copula_value PredictiveImplication = ''=/>''"
| "Copula_value ConcurrentImplication = ''=|>''"
| "Copula_value RetrospectiveImplication = [CHR ''='', CHR 0x5C, CHR ''>'']"
| "Copula_value PredictiveEquivalence = ''</>''"
| "Copula_value ConcurrentEquivalence = ''<|>''"

text \<open>
  Modelled from the spec: \<open>Copula.is_symmetric\<close>.  The symmetric copulas are
  similarity, equivalence and the two temporal equivalences; inheritance and the
  implications are not symmetric.
\<close>

fun is_symmetric :: "Copula \<Rightarrow> bool" where
  "is_symmetric Similarity = True"
| "is_symmetric Equivalence = True"
| "is_symmetric PredictiveEquivalence = True"
| "is_symmetric ConcurrentEquivalence = True"
| "is_symmetric _ = False"

text \<open>
  Modelled from the spec: \<open>Copula.is_first_order\<close>.  Inheritance and similarity are
  first-order; the implication class (implications, equivalences and their temporal
  variants) is higher-order.
\<close>

fun Copula_is_first_order :: "Copula \<Rightarrow> bool" where
  "Copula_is_first_order Inheritance = True"
| "Copula_is_first_order Similarity = True"
| "Copula_is_first_order _ = False"

text \<open>Modelled from the spec: \<open>TermConnector.value\<close>, the connector tokens of the wire format.\<close>

fun TermConnector_value :: "TermConnector \<Rightarrow> string" where
  "TermConnector_value ExtensionalIntersection_connector = ''&''"
| "TermConnector_value IntensionalIntersection_connector = ''|''"
| "TermConnector_value ExtensionalDifference_connector = ''-''"
| "TermConnector_value IntensionalDifference_connector = ''~''"
| "TermConnector_value Product = ''*''"
| "TermConnector_value ExtensionalImage_connector = ''/''"
| "TermConnector_value IntensionalImage_connector = [CHR 0x5C]"
| "TermConnector_value ImagePlaceHolder = ''_''"
| "TermConnector_value Negation_connector = ''--''"
| "TermConnector_value Conjunction = ''&&''"
| "TermConnector_value Disjunction = ''||''"
| "TermConnector_value SequentialConjunction = ''&/''"
| "TermConnector_value ParallelConjunction = ''&|''"
| "TermConnector_value ExtensionalSetStart = ''{''"
| "TermConnector_value ExtensionalSetEnd = ''}''"
| "TermConnector_value IntensionalSetStart = ''[''"
| "TermConnector_value IntensionalSetEnd = '']''"
| "TermConnector_value Array = ''@''"

text \<open>
  Modelled from the spec: \<open>TermConnector.is_first_order\<close>.  The statement connectors
  (negation, the conjunctions and disjunction) are higher-order, the term connectors
  first-order.
\<close>

fun TermConnector_is_first_order :: "TermConnector \<Rightarrow> bool" where
  "TermConnector_is_first_order Negation_connector = False"
| "TermConnector_is_first_order Conjunction = False"
| "TermConnector_is_first_order Disjunction = False"
| "TermConnector_is_first_order SequentialConjunction = False"
| "TermConnector_is_first_order ParallelConjunction = False"
| "TermConnector_is_first_order _ = True"

text \<open>
  Modelled from the spec: \<open>TermConnector.is_order_invariant\<close>, for the connectors the
  data model calls order-invariant (intersection, union, parallel conjunction, set).
\<close>

fun is_order_invariant :: "TermConnector \<Rightarrow> bool" where
  "is_order_invariant ExtensionalIntersection_connector = True"
| "is_order_invariant IntensionalIntersection_connector = True"
| "is_order_invariant Disjunction = True"
| "is_order_invariant ParallelConjunction = True"
| "is_order_invariant ExtensionalSetStart = True"
| "is_order_invariant IntensionalSetStart = True"
| "is_order_invariant _ = False"

text \<open>Modelled from the spec: the closing bracket of a set opener.\<close>

fun get_set_end_connector_from_set_start_connector :: "TermConnector \<Rightarrow> error + TermConnector" where
  "get_set_end_connector_from_set_start_connector ExtensionalSetStart = Inr ExtensionalSetEnd"
| "get_set_end_connector_from_set_start_connector IntensionalSetStart = Inr IntensionalSetEnd"
| "get_set_end_connector_from_set_start_connector _ = Inl AssertionError"

section \<open>Terms (NALGrammar/Terms.py)\<close>

datatype VariableType = Independent | Dependent | Query

text \<open>
  A statement term with two subterms carries its copula; the statement connector is
  \<open>None\<close> for a regular statement.  (The source also allows a statement term with a
  single subterm; no code at hand constructs one.)
\<close>

datatype Term =
    AtomicTerm string
  | VariableTerm string VariableType "Term list option"
  | CompoundTerm "Term list" TermConnector
  | StatementTerm Term Term Copula "TermConnector option"

definition is_set :: "TermConnector \<Rightarrow> bool" where
  "is_set c = (c = IntensionalSetStart \<or> c = ExtensionalSetStart)"

definition set_end_value :: "TermConnector \<Rightarrow> string" where
  "set_end_value c =
     (case get_set_end_connector_from_set_start_connector c of
        Inl _ \<Rightarrow> []
      | Inr e \<Rightarrow> TermConnector_value e)"

text \<open>
  \<open>get_formatted_string\<close>, the canonical string of a term.  Python's \<open>s[:-1]\<close> and
  \<open>s[0:-1]\<close> drop the last character (\<open>butlast\<close>).
\<close>

fun get_formatted_string :: "Term \<Rightarrow> string" where
  "get_formatted_string (AtomicTerm s) = s"
| "get_formatted_string (VariableTerm variable_name variable_type dependency_list) =
     (if variable_type = Query then ''?'' else ''#'') @ variable_name @
     (case dependency_list of
        None \<Rightarrow> []
      | Some ds \<Rightarrow>
          butlast (''('' @ concat (map (\<lambda>d. get_formatted_string d @ '','') ds)) @ '')'')"
| "get_formatted_string (CompoundTerm subterms connector) =
     (let string =
            (if is_set connector then TermConnector_value connector
             else TermConnector_value connector @ '','')
            @ concat (map (\<lambda>t. get_formatted_string t @ '','') subterms);
          string = butlast string
      in if is_set connector then string @ set_end_value connector
         else ''('' @ string @ '')'')"
| "get_formatted_string (StatementTerm subject_term predicate_term copula connector) =
     ''('' @ get_formatted_string subject_term @ '' '' @ Copula_value copula @ '' ''
       @ get_formatted_string predicate_term @ '')''"

text \<open>\<open>Term.__eq__\<close>: terms are equal if their strings are the same.\<close>

definition Term_eq :: "Term \<Rightarrow> Term \<Rightarrow> bool" where
  "Term_eq a b = (get_formatted_string a = get_formatted_string b)"

text \<open>The attribute \<open>subterms\<close>, which only compound and statement terms have.\<close>

fun subterms :: "Term \<Rightarrow> error + Term list" where
  "subterms (CompoundTerm ts _) = Inr ts"
| "subterms (StatementTerm s p _ _) = Inr [s, p]"
| "subterms _ = Inl AttributeError"

text \<open>Modelled from the spec: \<open>Global.TERM_IMAGE_PLACEHOLDER\<close>, the placeholder \<open>_\<close>.\<close>

definition TERM_IMAGE_PLACEHOLDER :: Term where
  "TERM_IMAGE_PLACEHOLDER = AtomicTerm ''_''"

section \<open>Sentences\<close>

text \<open>
  The sentence classes (\<open>Judgment\<close>, \<open>Goal\<close>, \<open>Question\<close>) and the class \<open>Stamp\<close> are
  not among the sources at hand.  A sentence is modelled by the fields that the code at
  hand reads and writes; the stamp's id counter stays outside the model, and the
  evidential base is the list of premise ids merged into it.  The type parameter is
  the type of the statement a sentence carries.
\<close>

datatype 's Sentence =
    Judgment (statement: 's) (value': TruthValue) (truth_values: "TruthValue list option")
      (stamp: "'s Stamp")
  | Goal (statement: 's) (value': TruthValue) (truth_values: "TruthValue list option")
      (stamp: "'s Stamp")
  | Question (statement: 's) (stamp: "'s Stamp")
and 's Stamp =
    Stamp (occurrence_time: "int option") (evidential_base: "nat list")
      (from_conversion: bool) (from_one_premise_inference: bool)
      (derived_by: "string option") (parent_premises: "'s Sentence list")

definition new_Stamp :: "int option \<Rightarrow> 's Stamp" where
  "new_Stamp occ = Stamp occ [] False False None []"

text \<open>\<open>Judgment(statement, truth, occurrence_time=occ)\<close> and \<open>Question(statement)\<close>.\<close>

definition new_Judgment :: "'s \<Rightarrow> TruthValue \<Rightarrow> int option \<Rightarrow> 's Sentence" where
  "new_Judgment st tv occ = Judgment st tv None (new_Stamp occ)"

definition new_Question :: "'s \<Rightarrow> 's Sentence" where
  "new_Question st = Question st (new_Stamp None)"

fun map_stamp :: "('s Stamp \<Rightarrow> 's Stamp) \<Rightarrow> 's Sentence \<Rightarrow> 's Sentence" where
  "map_stamp g (Judgment st v arr sp) = Judgment st v arr (g sp)"
| "map_stamp g (Goal st v arr sp) = Goal st v arr (g sp)"
| "map_stamp g (Question st sp) = Question st (g sp)"

fun set_evidential_base :: "nat list \<Rightarrow> 's Stamp \<Rightarrow> 's Stamp" where
  "set_evidential_base b (Stamp occ _ fc fo d pp) = Stamp occ b fc fo d pp"

fun set_from_conversion :: "bool \<Rightarrow> 's Stamp \<Rightarrow> 's Stamp" where
  "set_from_conversion fc (Stamp occ b _ fo d pp) = Stamp occ b fc fo d pp"

text \<open>
  Modelled from the spec: \<open>merge_sentence_evidential_base_into_self\<close>.  The result's
  evidential base becomes its union with the parent's.
\<close>

definition merge_sentence_evidential_base_into_self :: "'s Sentence \<Rightarrow> 's Sentence \<Rightarrow> 's Sentence" where
  "merge_sentence_evidential_base_into_self result j =
     map_stamp
       (\<lambda>sp. set_evidential_base
          (evidential_base sp @
             filter (\<lambda>i. \<not> List.member (evidential_base sp) i) (evidential_base (stamp j)))
          sp)
       result"

definition is_event :: "'s Sentence \<Rightarrow> bool" where
  "is_event j = (occurrence_time (stamp j) \<noteq> None)"

text \<open>\<open>j.value.frequency, j.value.confidence\<close>; a question carries no value.\<close>

fun getevidentialvalues_fromsentence :: "'s Sentence \<Rightarrow> error + (real \<times> real)" where
  "getevidentialvalues_fromsentence (Judgment _ v _ _) = Inr (frequency v, confidence v)"
| "getevidentialvalues_fromsentence (Goal _ v _ _) = Inr (frequency v, confidence v)"
| "getevidentialvalues_fromsentence (Question _ _) = Inl AttributeError"

definition getevidentialvalues_from2sentences ::
  "'s Sentence \<Rightarrow> 's Sentence \<Rightarrow> error + ((real \<times> real) \<times> (real \<times> real))" where
  "getevidentialvalues_from2sentences j1 j2 =
     (case getevidentialvalues_fromsentence j1 of
        Inl e \<Rightarrow> Inl e
      | Inr v1 \<Rightarrow>
          (case getevidentialvalues_fromsentence j2 of
             Inl e \<Rightarrow> Inl e
           | Inr v2 \<Rightarrow> Inr (v1, v2)))"

definition getevidence_from2sentences ::
  "real \<Rightarrow> 's Sentence \<Rightarrow> 's Sentence \<Rightarrow> error + ((real \<times> real \<times> real) \<times> (real \<times> real \<times> real))" where
  "getevidence_from2sentences k j1 j2 =
     (case getevidentialvalues_from2sentences j1 j2 of
        Inl e \<Rightarrow> Inl e
      | Inr ((f1, c1), (f2, c2)) \<Rightarrow>
          (case get_evidence_fromfreqconf k f1 c1 of
             Inl e \<Rightarrow> Inl e
           | Inr e1 \<Rightarrow>
               (case get_evidence_fromfreqconf k f2 c2 of
                  Inl e \<Rightarrow> Inl e
                | Inr e2 \<Rightarrow> Inr (e1, e2))))"

section \<open>Inference rules (NALInferenceRules.py)\<close>

text \<open>
  The rules of \<open>NALInferenceRules.py\<close> work on the class \<open>NALGrammar.Statement\<close>, which
  is not among the sources at hand: a statement is modelled by its subject, its
  predicate, its copula and its statement connector; \<open>statement.term\<close> is the
  statement term with the same parts.
\<close>

datatype Statement =
  Statement (get_subject_term: Term) (get_predicate_term: Term) (get_copula: Copula)
    (term_connector: "TermConnector option")

definition Statement_term :: "Statement \<Rightarrow> Term" where
  "Statement_term s =
     StatementTerm (get_subject_term s) (get_predicate_term s) (get_copula s) (term_connector s)"

type_synonym sentence = "Statement Sentence"

text \<open>
  The common tail of the rules: both parents' evidential bases are merged into the
  result.
\<close>

definition merge2 :: "sentence \<Rightarrow> sentence \<Rightarrow> sentence \<Rightarrow> sentence" where
  "merge2 result j1 j2 =
     merge_sentence_evidential_base_into_self
       (merge_sentence_evidential_base_into_self result j1) j2"

definition Revision :: "real \<Rightarrow> sentence \<Rightarrow> sentence \<Rightarrow> error + sentence" where
  "Revision k j1 j2 =
     (if get_formatted_string (Statement_term (statement j1))
           \<noteq> get_formatted_string (Statement_term (statement j2))
      then Inl AssertionError
      else
        (case getevidence_from2sentences k j1 j2 of
           Inl e \<Rightarrow> Inl e
         | Inr ((wp1, w1, wn1), (wp2, w2, wn2)) \<Rightarrow>
             (case F_Revision k wp1 wn1 wp2 wn2 of
                Inl e \<Rightarrow> Inl e
              | Inr result_truth \<Rightarrow>
                  (let result_statement =
                         Statement (get_subject_term (statement j1))
                           (get_predicate_term (statement j1))
                           (get_copula (statement j1)) None;
                       result = new_Judgment result_statement result_truth
                                  (occurrence_time (stamp j1))
                   in Inr (merge2 result j1 j2)))))"

text \<open>
  \<open>Projection(j, occurrence_time)\<close>.  For a question the source executes
  \<open>assert "error"\<close>, which passes (a non-empty string is true), and then reads the
  unbound name \<open>result\<close>.
\<close>

definition Projection :: "int \<Rightarrow> sentence \<Rightarrow> int \<Rightarrow> error + sentence" where
  "Projection T_c j occurrence_time' =
     (case j of
        Judgment st v arr sp \<Rightarrow>
          (case occurrence_time sp of
             None \<Rightarrow> Inl TypeError
           | Some t_B \<Rightarrow>
               (case F_Projection T_c (frequency v) (confidence v) t_B occurrence_time' of
                  Inl e \<Rightarrow> Inl e
                | Inr result_truth \<Rightarrow>
                    Inr (merge_sentence_evidential_base_into_self
                           (new_Judgment st result_truth (Some occurrence_time')) j)))
      | _ \<Rightarrow> Inl UnboundLocalError)"

text \<open>
  \<open>Negation(j)\<close>.  The question branch is \<open>assert "error"\<close>, which passes; the next
  statement reads \<open>result\<close>, which no branch has bound.
\<close>

definition Negation :: "sentence \<Rightarrow> error + sentence" where
  "Negation j =
     (let result_statement =
            Statement (get_subject_term (statement j)) (get_predicate_term (statement j))
              (get_copula (statement j)) (Some Negation_connector);
          occurrence_time' = occurrence_time (stamp j)
      in case j of
           Judgment st v arr sp \<Rightarrow>
             (let result_truth = F_Negation (frequency v) (confidence v);
                  result = new_Judgment result_statement result_truth occurrence_time'
              in Inr (merge_sentence_evidential_base_into_self result j))
         | _ \<Rightarrow> Inl UnboundLocalError)"

definition Conversion :: "real \<Rightarrow> sentence \<Rightarrow> error + sentence" where
  "Conversion k j =
     (let result_statement =
            Statement (get_predicate_term (statement j)) (get_subject_term (statement j))
              (get_copula (statement j)) None;
          occurrence_time' = occurrence_time (stamp j)
      in case j of
           Judgment st v arr sp \<Rightarrow>
             (case F_Conversion k (frequency v) (confidence v) of
                Inl e \<Rightarrow> Inl e
              | Inr result_truth \<Rightarrow>
                  Inr (map_stamp (set_from_conversion True)
                         (merge_sentence_evidential_base_into_self
                            (new_Judgment result_statement result_truth occurrence_time') j)))
         | Question st sp \<Rightarrow>
             Inr (map_stamp (set_from_conversion True)
                    (merge_sentence_evidential_base_into_self (new_Question result_statement) j))
         | Goal st v arr sp \<Rightarrow> Inl UnboundLocalError)"

definition Contraposition :: "real \<Rightarrow> sentence \<Rightarrow> error + sentence" where
  "Contraposition k j =
     (let negated_predicate_term =
            CompoundTerm [get_predicate_term (statement j)] Negation_connector;
          negated_subject_term =
            CompoundTerm [get_subject_term (statement j)] Negation_connector;
          result_statement =
            Statement negated_predicate_term negated_subject_term (get_copula (statement j)) None
      in case j of
           Judgment st v arr sp \<Rightarrow>
             (case F_Contraposition k (frequency v) (confidence v) of
                Inl e \<Rightarrow> Inl e
              | Inr result_truth \<Rightarrow>
                  Inr (merge_sentence_evidential_base_into_self
                         (new_Judgment result_statement result_truth None) j))
         | Question st sp \<Rightarrow>
             Inr (merge_sentence_evidential_base_into_self (new_Question result_statement) j)
         | Goal st v arr sp \<Rightarrow> Inl UnboundLocalError)"

text \<open>The first raise of a sequence of results aborts it.\<close>

fun collect :: "(error + 'a) list \<Rightarrow> error + 'a list" where
  "collect [] = Inr []"
| "collect (Inl e # _) = Inl e"
| "collect (Inr x # rs) = (case collect rs of Inl e \<Rightarrow> Inl e | Inr xs \<Rightarrow> Inr (x # xs))"

text \<open>
  The image of a statement at position \<open>i1\<close> of the subterms: \<open>R\<close> first, then the
  subterms with the placeholder at position \<open>i1\<close>.
\<close>

definition image_subterms :: "Term \<Rightarrow> Term list \<Rightarrow> nat \<Rightarrow> Term list" where
  "image_subterms R statement_subterms i1 =
     R # map (\<lambda>i2. if i1 \<noteq> i2 then statement_subterms ! i2 else TERM_IMAGE_PLACEHOLDER)
           [0..<length statement_subterms]"

definition image_result :: "sentence \<Rightarrow> Statement \<Rightarrow> error + sentence" where
  "image_result j result_statement =
     (case j of
        Judgment st v arr sp \<Rightarrow>
          Inr (merge_sentence_evidential_base_into_self
                 (new_Judgment result_statement (TruthValue (frequency v) (confidence v))
                    (occurrence_time sp)) j)
      | Question st sp \<Rightarrow>
          Inr (merge_sentence_evidential_base_into_self (new_Question result_statement) j)
      | Goal st v arr sp \<Rightarrow> Inl UnboundLocalError)"

definition ExtensionalImage :: "sentence \<Rightarrow> error + sentence list" where
  "ExtensionalImage j =
     (case subterms (get_subject_term (statement j)) of
        Inl e \<Rightarrow> Inl e
      | Inr statement_subterms \<Rightarrow>
          (let R = get_predicate_term (statement j)
           in collect
                (map (\<lambda>i1.
                        let subterm = statement_subterms ! i1;
                            image_term =
                              CompoundTerm (image_subterms R statement_subterms i1)
                                ExtensionalImage_connector;
                            result_statement = Statement subterm image_term Inheritance None
                        in image_result j result_statement)
                   [0..<length statement_subterms])))"

text \<open>\<open>IntensionalImage\<close> builds its image term with the extensional image connector too.\<close>

definition IntensionalImage :: "sentence \<Rightarrow> error + sentence list" where
  "IntensionalImage j =
     (case subterms (get_predicate_term (statement j)) of
        Inl e \<Rightarrow> Inl e
      | Inr statement_subterms \<Rightarrow>
          (let R = get_subject_term (statement j)
           in collect
                (map (\<lambda>i1.
                        let subterm = statement_subterms ! i1;
                            image_term =
                              CompoundTerm (image_subterms R statement_subterms i1)
                                ExtensionalImage_connector;
                            result_statement = Statement image_term subterm Inheritance None
                        in image_result j result_statement)
                   [0..<length statement_subterms])))"

subsection \<open>Syllogistic rules\<close>

definition Deduction :: "sentence \<Rightarrow> sentence \<Rightarrow> error + sentence" where
  "Deduction j1 j2 =
     (let result_statement =
            Statement (get_subject_term (statement j2)) (get_predicate_term (statement j1))
              (get_copula (statement j1)) None
      in case j1 of
           Judgment st v arr sp \<Rightarrow>
             (case getevidentialvalues_from2sentences j1 j2 of
                Inl e \<Rightarrow> Inl e
              | Inr ((f1, c1), (f2, c2)) \<Rightarrow>
                  Inr (merge2 (new_Judgment result_statement (F_Deduction f1 c1 f2 c2)
                                 (occurrence_time sp)) j1 j2))
         | Question st sp \<Rightarrow> Inr (merge2 (new_Question result_statement) j1 j2)
         | Goal st v arr sp \<Rightarrow> Inl UnboundLocalError)"

text \<open>
  The result statement of \<open>Analogy\<close>, by the position of the shared term; the last
  branch is \<open>assert (False)\<close>.
\<close>

definition Analogy_statement :: "sentence \<Rightarrow> sentence \<Rightarrow> error + Statement" where
  "Analogy_statement j1 j2 =
     (let s1 = statement j1; s2 = statement j2
      in if Term_eq (get_subject_term s1) (get_predicate_term s2) then
           Inr (Statement (get_subject_term s2) (get_predicate_term s1) (get_copula s1) None)
         else if Term_eq (get_subject_term s1) (get_subject_term s2) then
           Inr (Statement (get_predicate_term s2) (get_predicate_term s1) (get_copula s1) None)
         else if Term_eq (get_predicate_term s1) (get_predicate_term s2) then
           Inr (Statement (get_subject_term s1) (get_subject_term s2) (get_copula s1) None)
         else if Term_eq (get_predicate_term s1) (get_subject_term s2) then
           Inr (Statement (get_subject_term s1) (get_predicate_term s2) (get_copula s1) None)
         else Inl AssertionError)"

definition Analogy :: "sentence \<Rightarrow> sentence \<Rightarrow> error + sentence" where
  "Analogy j1 j2 =
     (case Analogy_statement j1 j2 of
        Inl e \<Rightarrow> Inl e
      | Inr result_statement \<Rightarrow>
          (case j1 of
             Judgment st v arr sp \<Rightarrow>
               (case getevidentialvalues_from2sentences j1 j2 of
                  Inl e \<Rightarrow> Inl e
                | Inr ((f1, c1), (f2, c2)) \<Rightarrow>
                    Inr (merge2 (new_Judgment result_statement (F_Analogy f1 c1 f2 c2)
                                   (occurrence_time sp)) j1 j2))
           | Question st sp \<Rightarrow> Inr (merge2 (new_Question result_statement) j1 j2)
           | Goal st v arr sp \<Rightarrow> Inl UnboundLocalError))"

definition Resemblance_statement :: "sentence \<Rightarrow> sentence \<Rightarrow> error + Statement" where
  "Resemblance_statement j1 j2 =
     (let s1 = statement j1; s2 = statement j2
      in if Term_eq (get_subject_term s1) (get_predicate_term s2) then
           Inr (Statement (get_subject_term s2) (get_predicate_term s1) (get_copula s1) None)
         else if Term_eq (get_subject_term s1) (get_subject_term s2) then
           Inr (Statement (get_predicate_term s2) (get_predicate_term s1) (get_copula s1) None)
         else if Term_eq (get_predicate_term s1) (get_predicate_term s2) then
           Inr (Statement (get_subject_term s2) (get_subject_term s1) (get_copula s1) None)
         else if Term_eq (get_predicate_term s1) (get_subject_term s2) then
           Inr (Statement (get_predicate_term s2) (get_subject_term s2) (get_copula s1) None)
         else Inl AssertionError)"

definition Resemblance :: "sentence \<Rightarrow> sentence \<Rightarrow> error + sentence" where
  "Resemblance j1 j2 =
     (case Resemblance_statement j1 j2 of
        Inl e \<Rightarrow> Inl e
      | Inr result_statement \<Rightarrow>
          (case j1 of
             Judgment st v arr sp \<Rightarrow>
               (case getevidentialvalues_from2sentences j1 j2 of
                  Inl e \<Rightarrow> Inl e
                | Inr ((f1, c1), (f2, c2)) \<Rightarrow>
                    Inr (merge2 (new_Judgment result_statement (F_Resemblance f1 c1 f2 c2)
                                   (occurrence_time sp)) j1 j2))
           | Question st sp \<Rightarrow> Inr (merge2 (new_Question result_statement) j1 j2)
           | Goal st v arr sp \<Rightarrow> Inl UnboundLocalError))"

text \<open>
  The weak syllogisms share their shape: a result statement, a truth function that
  may divide, and the judgment/question split on \<open>j1\<close>.
\<close>

definition weak_rule ::
  "Statement \<Rightarrow> (real \<Rightarrow> real \<Rightarrow> real \<Rightarrow> real \<Rightarrow> error + TruthValue)
     \<Rightarrow> sentence \<Rightarrow> sentence \<Rightarrow> error + sentence" where
  "weak_rule result_statement F j1 j2 =
     (case j1 of
        Judgment st v arr sp \<Rightarrow>
          (case getevidentialvalues_from2sentences j1 j2 of
             Inl e \<Rightarrow> Inl e
           | Inr ((f1, c1), (f2, c2)) \<Rightarrow>
               (case F f1 c1 f2 c2 of
                  Inl e \<Rightarrow> Inl e
                | Inr result_truth \<Rightarrow>
                    Inr (merge2 (new_Judgment result_statement result_truth
                                   (occurrence_time sp)) j1 j2)))
      | Question st sp \<Rightarrow> Inr (merge2 (new_Question result_statement) j1 j2)
      | Goal st v arr sp \<Rightarrow> Inl UnboundLocalError)"

definition Abduction :: "real \<Rightarrow> sentence \<Rightarrow> sentence \<Rightarrow> error + sentence" where
  "Abduction k j1 j2 =
     weak_rule
       (Statement (get_subject_term (statement j2)) (get_subject_term (statement j1))
          (get_copula (statement j1)) None)
       (F_Abduction k) j1 j2"

definition Induction :: "real \<Rightarrow> sentence \<Rightarrow> sentence \<Rightarrow> error + sentence" where
  "Induction k j1 j2 =
     weak_rule
       (Statement (get_predicate_term (statement j2)) (get_predicate_term (statement j1))
          (get_copula (statement j1)) None)
       (F_Induction k) j1 j2"

definition Exemplification :: "real \<Rightarrow> sentence \<Rightarrow> sentence \<Rightarrow> error + sentence" where
  "Exemplification k j1 j2 =
     weak_rule
       (Statement (get_predicate_term (statement j2)) (get_subject_term (statement j1))
          (get_copula (statement j1)) None)
       (F_Exemplification k) j1 j2"

definition Comparison :: "real \<Rightarrow> sentence \<Rightarrow> sentence \<Rightarrow> error + sentence" where
  "Comparison k j1 j2 =
     (let s1 = statement j1; s2 = statement j2
      in if Term_eq (get_subject_term s1) (get_subject_term s2) then
           weak_rule (Statement (get_predicate_term s2) (get_predicate_term s1) Similarity None)
             (F_Comparison k) j1 j2
         else if Term_eq (get_predicate_term s1) (get_predicate_term s2) then
           weak_rule (Statement (get_subject_term s2) (get_subject_term s1) Similarity None)
             (F_Comparison k) j1 j2
         else Inl AssertionError)"

section \<open>The inference dispatcher (NARSInferenceEngine.py)\<close>

text \<open>
  The immediate rules.  The result is the list of derived sentences together with
  the rule names that \<open>print_inference_rule\<close> printed, in order.
\<close>

definition do_inference_one_premise :: "real \<Rightarrow> sentence \<Rightarrow> error + (sentence list \<times> string list)" where
  "do_inference_one_premise k j =
     (case j of
        Judgment st v arr sp \<Rightarrow>
          (case Negation j of
             Inl e \<Rightarrow> Inl e
           | Inr negation \<Rightarrow>
               (case (if \<not> is_symmetric (get_copula st) \<and> frequency v > 0 then
                        (case Conversion k j of
                           Inl e \<Rightarrow> Inl e
                         | Inr r \<Rightarrow> Inr ([negation, r], [''Negation'', ''Conversion'']))
                      else Inr ([negation], [''Negation''])) of
                  Inl e \<Rightarrow> Inl e
                | Inr (derived_sentences, printed) \<Rightarrow>
                    (if get_copula st = Implication \<and> frequency v < 1 then
                       (case Contraposition k j of
                          Inl e \<Rightarrow> Inl e
                        | Inr r \<Rightarrow>
                            Inr (derived_sentences @ [r], printed @ [''Contraposition'']))
                     else Inr (derived_sentences, printed))))
      | _ \<Rightarrow> Inr ([], []))"

text \<open>The loop that runs every derivation through the immediate rules.\<close>

fun immediate_inference :: "real \<Rightarrow> sentence list \<Rightarrow> error + (sentence list \<times> string list)" where
  "immediate_inference k [] = Inr ([], [])"
| "immediate_inference k (d # ds) =
     (case do_inference_one_premise k d of
        Inl e \<Rightarrow> Inl e
      | Inr (r, p) \<Rightarrow>
          (case immediate_inference k ds of
             Inl e \<Rightarrow> Inl e
           | Inr (rs, ps) \<Rightarrow> Inr (r @ rs, p @ ps)))"

text \<open>
  A run of rule calls, each followed by \<open>print_inference_rule\<close> and an append; the
  first raise aborts the run.
\<close>

fun run_rules :: "(string \<times> (error + sentence)) list \<Rightarrow> error + (sentence list \<times> string list)" where
  "run_rules [] = Inr ([], [])"
| "run_rules ((name, Inl e) # _) = Inl e"
| "run_rules ((name, Inr r) # rest) =
     (case run_rules rest of
        Inl e \<Rightarrow> Inl e
      | Inr (rs, ps) \<Rightarrow> Inr (r # rs, name # ps))"

text \<open>
  The dispatcher calls \<open>NALInferenceRules.IntensionalIntersection\<close>,
  \<open>ExtensionalIntersection\<close> and \<open>Difference\<close>, which the rule file at hand does not
  define; they are the arguments \<open>II\<close>, \<open>EI\<close> and \<open>Diff\<close>.

  The result is the list of derived sentences, the rule names printed, and whether
  the final step (marking the two premises as having interacted) was reached.
\<close>

definition do_inference_two_premise ::
  "real \<Rightarrow> (sentence \<Rightarrow> sentence \<Rightarrow> error + sentence)
     \<Rightarrow> (sentence \<Rightarrow> sentence \<Rightarrow> error + sentence)
     \<Rightarrow> (sentence \<Rightarrow> sentence \<Rightarrow> error + sentence)
     \<Rightarrow> sentence \<Rightarrow> sentence \<Rightarrow> error + (sentence list \<times> string list \<times> bool)" where
  "do_inference_two_premise k II EI Diff j1 j2 =
     (if term_connector (statement j1) \<noteq> None \<or> term_connector (statement j2) \<noteq> None
      then Inr ([], [], False)
      else
        (let j1_term = Statement_term (statement j1);
             j2_term = Statement_term (statement j2);
             j1_subject_term = get_subject_term (statement j1);
             j2_subject_term = get_subject_term (statement j2);
             j1_predicate_term = get_predicate_term (statement j1);
             j2_predicate_term = get_predicate_term (statement j2);
             j1_copula = get_copula (statement j1);
             j2_copula = get_copula (statement j2);
             tautology =
               ((Term_eq j1_subject_term j2_predicate_term
                   \<and> Term_eq j1_predicate_term j2_subject_term)
                \<or> (Term_eq j1_subject_term j2_subject_term
                    \<and> Term_eq j1_predicate_term j2_predicate_term
                    \<and> \<not> (j1_copula = Inheritance \<and> j2_copula = Inheritance)));
             different_copulas = (j1_copula \<noteq> j2_copula)
         in if tautology \<or> different_copulas then Inr ([], [], False)
            else
              (let is_question =
                     ((case j1 of Question _ _ \<Rightarrow> True | _ \<Rightarrow> False)
                      \<or> (case j2 of Question _ _ \<Rightarrow> True | _ \<Rightarrow> False))
               in if Term_eq j1_term j2_term \<and> is_question then Inr ([], [], False)
                  else
                    (case
                       (if Term_eq j1_term j2_term then
                          run_rules [(''Revision'', Revision k j1 j2)]
                        else if \<not> is_symmetric j1_copula \<and> \<not> is_symmetric j2_copula then
                          (if Term_eq j1_subject_term j2_predicate_term
                              \<or> Term_eq j1_predicate_term j2_subject_term then
                             (let swapped = \<not> Term_eq j1_subject_term j2_predicate_term;
                                  a = (if swapped then j2 else j1);
                                  b = (if swapped then j1 else j2)
                              in run_rules
                                   [(''Deduction'', Deduction a b),
                                    (''Swapped Exemplification'', Exemplification k b a)])
                           else if Term_eq j1_subject_term j2_subject_term then
                             run_rules
                               [(''Induction'', Induction k j1 j2),
                                (''Swapped Induction'', Induction k j2 j1),
                                (''Comparison'', Comparison k j1 j2),
                                (''Intersection'', II j1 j2),
                                (''Intersection'', EI j1 j2),
                                (''Intersection'', Diff j1 j2),
                                (''Intersection'', Diff j2 j1)]
                           else if Term_eq j1_predicate_term j2_predicate_term then
                             run_rules
                               [(''Abduction'', Abduction k j1 j2),
                                (''Swapped Abduction'', Abduction k j2 j1),
                                (''Comparison'', Comparison k j1 j2),
                                (''Intersection'', II j1 j2),
                                (''Intersection'', EI j1 j2),
                                (''Intersection'', Diff j1 j2),
                                (''Intersection'', Diff j2 j1)]
                           else Inl AssertionError)
                        else if \<not> is_symmetric j1_copula \<and> is_symmetric j2_copula then
                          run_rules [(''Analogy'', Analogy j1 j2)]
                        else if is_symmetric j1_copula \<and> \<not> is_symmetric j2_copula then
                          run_rules [(''Swapped Analogy'', Analogy j2 j1)]
                        else if is_symmetric j1_copula \<and> is_symmetric j2_copula then
                          run_rules [(''Resemblance'', Resemblance j1 j2)]
                        else Inr ([], [])) of
                       Inl e \<Rightarrow> Inl e
                     | Inr (derived_sentences, printed) \<Rightarrow>
                         (case immediate_inference k derived_sentences of
                            Inl e \<Rightarrow> Inl e
                          | Inr (immediate, printed') \<Rightarrow>
                              Inr (derived_sentences @ immediate, printed @ printed', True))))))"

section \<open>Example inputs\<close>

definition C9_judgment :: sentence where
  "C9_judgment =
     Judgment (Statement (AtomicTerm ''A'') (AtomicTerm ''B'') Inheritance None)
       (TruthValue (9/10) (9/10)) None (Stamp (Some 5) [1] False False None [])"

text \<open>The positive and the negative evidence \<open>get_evidence_fromfreqconf\<close> returns.\<close>

definition revision_evidence :: "real \<Rightarrow> real \<Rightarrow> real \<Rightarrow> real \<times> real" where
  "revision_evidence k f c = (k * f * c / (1 - c), k * c / (1 - c) - k * f * c / (1 - c))"

definition C8_j1 :: sentence where
  "C8_j1 = Judgment (Statement (AtomicTerm ''A'') (AtomicTerm ''B'') Inheritance None)
       (TruthValue 1 (9/10)) None (Stamp None [1] False False None [])"

definition C8_j2 :: sentence where
  "C8_j2 = Judgment (Statement (AtomicTerm ''A'') (AtomicTerm ''B'') Inheritance None)
       (TruthValue 0 (9/10)) None (Stamp None [2] False False None [])"

text \<open>
  With the rule file at hand alone, a call of one of the three rule names it does not
  define raises \<open>AttributeError\<close>.
\<close>

definition absent_rule :: "sentence \<Rightarrow> sentence \<Rightarrow> error + sentence" where
  "absent_rule j1 j2 = Inl AttributeError"

definition C2_j1 :: sentence where
  "C2_j1 = Judgment (Statement (AtomicTerm ''M'') (AtomicTerm ''P'') Inheritance None)
       (TruthValue 1 (9/10)) None (Stamp None [1] False False None [])"

definition C2_j2 :: sentence where
  "C2_j2 = Judgment (Statement (AtomicTerm ''S'') (AtomicTerm ''M'') Similarity None)
       (TruthValue 1 (9/10)) None (Stamp None [2] False False None [])"

definition C7_j :: sentence where
  "C7_j = Judgment (Statement (CompoundTerm [AtomicTerm ''S'', AtomicTerm ''P''] Product)
                      (AtomicTerm ''R'') Inheritance None)
       (TruthValue 1 (9/10)) None (Stamp None [1] False False None [])"

definition C7_image1 :: sentence where
  "C7_image1 = Judgment
       (Statement (AtomicTerm ''S'')
         (CompoundTerm [AtomicTerm ''R'', AtomicTerm ''_'', AtomicTerm ''P'']
            ExtensionalImage_connector) Inheritance None)
       (TruthValue 1 (9/10)) None (Stamp None [1] False False None [])"

definition C7_image2 :: sentence where
  "C7_image2 = Judgment
       (Statement (AtomicTerm ''P'')
         (CompoundTerm [AtomicTerm ''R'', AtomicTerm ''S'', AtomicTerm ''_'']
            ExtensionalImage_connector) Inheritance None)
       (TruthValue 1 (9/10)) None (Stamp None [1] False False None [])"

definition C7_negation :: sentence where
  "C7_negation = Judgment
        (Statement (CompoundTerm [AtomicTerm ''S'', AtomicTerm ''P''] Product)
          (AtomicTerm ''R'') Inheritance (Some Negation_connector))
        (TruthValue 0 (9/10)) None (Stamp None [1] False False None [])"

definition C7_conversion :: sentence where
  "C7_conversion = Judgment
        (Statement (AtomicTerm ''R'')
          (CompoundTerm [AtomicTerm ''S'', AtomicTerm ''P''] Product) Inheritance None)
        (TruthValue 1 (9/19)) None (Stamp None [1] True False None [])"

section \<open>Resultant sentences (NALInferenceRules/HelperFunctions.py)\<close>

text \<open>
  The constructor \<open>StatementTerm(subject_term, predicate_term, copula)\<close> with two
  subterms and no statement connector: the subterms are sorted by their strings when
  the copula is symmetric (\<open>subterms.sort(key=lambda t: str(t))\<close>, a stable sort).
\<close>

definition StatementTerm_init :: "Term \<Rightarrow> Term \<Rightarrow> Copula \<Rightarrow> Term" where
  "StatementTerm_init subject_term predicate_term copula =
     (if is_symmetric copula then
        (case sort_key get_formatted_string [subject_term, predicate_term] of
           [a, b] \<Rightarrow> StatementTerm a b copula None
         | _ \<Rightarrow> StatementTerm subject_term predicate_term copula None)
      else StatementTerm subject_term predicate_term copula None)"

text \<open>
  The classmethod \<open>Term.simplify\<close> of \<open>Terms.py\<close>.  A term that is neither atomic nor
  a statement nor a compound (a variable) falls through every branch, and the result is
  \<open>None\<close>.  A statement is rebuilt from its simplified parts by the constructor: a
  subject \<open>None\<close> fails the constructor's first assertion; with the predicate \<open>None\<close>
  the constructor takes the single-subterm path, which asserts that the subject is a
  statement term and then fails to format a term without connector.
\<close>

fun Term_simplify :: "Term \<Rightarrow> error + Term option" where
  "Term_simplify (AtomicTerm s) = Inr (Some (AtomicTerm s))"
| "Term_simplify (StatementTerm subject_term predicate_term copula connector) =
     (case Term_simplify subject_term of
        Inl e \<Rightarrow> Inl e
      | Inr simplified_subject_term \<Rightarrow>
          (case Term_simplify predicate_term of
             Inl e \<Rightarrow> Inl e
           | Inr simplified_predicate_term \<Rightarrow>
               (case simplified_subject_term of
                  None \<Rightarrow> Inl AssertionError
                | Some s \<Rightarrow>
                    (case simplified_predicate_term of
                       None \<Rightarrow>
                         (case s of
                            StatementTerm _ _ _ _ \<Rightarrow> Inl AttributeError
                          | _ \<Rightarrow> Inl AssertionError)
                     | Some p \<Rightarrow> Inr (Some (StatementTerm_init s p copula))))))"
| "Term_simplify (CompoundTerm ts connector) = Inr (Some (CompoundTerm ts connector))"
| "Term_simplify (VariableTerm n ty deps) = Inr None"

datatype SentenceType = Judgment_type | Goal_type | Question_type

fun type_of :: "'s Sentence \<Rightarrow> SentenceType" where
  "type_of (Judgment _ _ _ _) = Judgment_type"
| "type_of (Goal _ _ _ _) = Goal_type"
| "type_of (Question _ _) = Question_type"

definition premise_result_type :: "'s Sentence \<Rightarrow> 's Sentence \<Rightarrow> SentenceType" where
  "premise_result_type j1 j2 =
     (if type_of j1 \<noteq> Judgment_type then type_of j1
      else if type_of j2 \<noteq> Judgment_type then type_of j2
      else Judgment_type)"

text \<open>
  The attribute \<open>is_array\<close> of a sentence: the sentence carries an array of truth
  values.
\<close>

fun is_array :: "'s Sentence \<Rightarrow> bool" where
  "is_array (Judgment _ _ arr _) = (arr \<noteq> None)"
| "is_array (Goal _ _ arr _) = (arr \<noteq> None)"
| "is_array (Question _ _) = False"

fun set_derivation :: "string option \<Rightarrow> 's Sentence list \<Rightarrow> 's Stamp \<Rightarrow> 's Stamp" where
  "set_derivation d pp (Stamp occ b fc fo _ _) = Stamp occ b fc fo d pp"

text \<open>
  \<open>stamp_and_print_inference_rule\<close>: the name of the truth function (or
  \<open>Structural Transformation\<close>) and the parent premises are written into the stamp.
  A truth function is passed with its name.
\<close>

definition stamp_and_print_inference_rule ::
  "'s Sentence \<Rightarrow> (string \<times> 'f) option \<Rightarrow> 's Sentence list \<Rightarrow> 's Sentence" where
  "stamp_and_print_inference_rule sentence' inference_rule parent_sentences =
     map_stamp
       (set_derivation
          (Some (case inference_rule of
                   None \<Rightarrow> ''Structural Transformation''
                 | Some (name, _) \<Rightarrow> name))
          parent_sentences)
       sentence'"

text \<open>
  The test that decides whether a result gets an occurrence time: the result is a
  statement with a first-order copula, or a compound that is not a statement and
  whose connector is not first-order.
\<close>

fun may_need_occurrence_time :: "Term \<Rightarrow> bool" where
  "may_need_occurrence_time (StatementTerm _ _ copula _) = Copula_is_first_order copula"
| "may_need_occurrence_time (CompoundTerm _ connector) = (\<not> TermConnector_is_first_order connector)"
| "may_need_occurrence_time _ = False"

definition result_occurrence_time :: "'s Sentence \<Rightarrow> 's Sentence \<Rightarrow> int option" where
  "result_occurrence_time j1 j2 =
     (case (occurrence_time (stamp j1), occurrence_time (stamp j2)) of
        (Some t1, Some t2) \<Rightarrow> (if t1 > t2 then Some t1 else Some t2)
      | (Some t1, None) \<Rightarrow> Some t1
      | (None, Some t2) \<Rightarrow> Some t2
      | (None, None) \<Rightarrow> None)"

text \<open>
  \<open>create_resultant_sentence_two_premise\<close>.  Its first statement calls the module-level
  function \<open>NALGrammar.Terms.simplify\<close>, which \<open>Terms.py\<close> does not define (it has only
  the classmethod \<open>Term.simplify\<close>); \<open>Value_Projection\<close> (of
  \<open>NALInferenceRules.Local\<close>) and \<open>TruthFunctionOnArrayAndRevise\<close> are not among the
  sources at hand either.  The three are the first three arguments, each free to raise.
  The sentence constructors are given a statement; a result statement \<open>None\<close> fails
  there.
\<close>

definition create_resultant_sentence_two_premise ::
  "(Term \<Rightarrow> error + Term option)
   \<Rightarrow> (Term Sentence \<Rightarrow> int \<Rightarrow> error + TruthValue)
   \<Rightarrow> (TruthValue list \<Rightarrow> TruthValue list
        \<Rightarrow> (string \<times> (real \<Rightarrow> real \<Rightarrow> real \<Rightarrow> real \<Rightarrow> error + TruthValue)) option
        \<Rightarrow> error + (TruthValue \<times> TruthValue list))
   \<Rightarrow> Term Sentence \<Rightarrow> Term Sentence \<Rightarrow> Term
   \<Rightarrow> (string \<times> (real \<Rightarrow> real \<Rightarrow> real \<Rightarrow> real \<Rightarrow> error + TruthValue)) option
   \<Rightarrow> error + Term Sentence" where
  "create_resultant_sentence_two_premise simplify Value_Projection TruthFunctionOnArrayAndRevise
       j1 j2 result_statement truth_value_function =
     (case simplify result_statement of
        Inl e \<Rightarrow> Inl e
      | Inr result_statement' \<Rightarrow>
          (let result_type = premise_result_type j1 j2;
               finish = (\<lambda>result.
                  stamp_and_print_inference_rule
                    (merge_sentence_evidential_base_into_self
                       (merge_sentence_evidential_base_into_self result j1) j2)
                    truth_value_function [j1, j2])
           in if result_type = Judgment_type \<or> result_type = Goal_type then
                (case getevidentialvalues_fromsentence j1 of
                   Inl e \<Rightarrow> Inl e
                 | Inr (f1, c1) \<Rightarrow>
                     (case (if is_event j1 \<and> is_event j2 then
                              (case occurrence_time (stamp j2) of
                                 None \<Rightarrow> Inl TypeError
                               | Some t2 \<Rightarrow>
                                   (case Value_Projection j1 t2 of
                                      Inl e \<Rightarrow> Inl e
                                    | Inr proj_value \<Rightarrow>
                                        Inr (frequency proj_value, confidence proj_value)))
                            else getevidentialvalues_fromsentence j2) of
                        Inl e \<Rightarrow> Inl e
                      | Inr (f2, c2) \<Rightarrow>
                          (case (if is_array j1 \<and> is_array j2 then
                                   (case (truth_values j1, truth_values j2) of
                                      (Some a1, Some a2) \<Rightarrow>
                                        (case TruthFunctionOnArrayAndRevise a1 a2 truth_value_function of
                                           Inl e \<Rightarrow> Inl e
                                         | Inr (t, arr) \<Rightarrow> Inr (t, Some arr))
                                    | _ \<Rightarrow> Inl AttributeError)
                                 else
                                   (case truth_value_function of
                                      None \<Rightarrow> Inl TypeError
                                    | Some (name, F) \<Rightarrow>
                                        (case F f1 c1 f2 c2 of
                                           Inl e \<Rightarrow> Inl e
                                         | Inr t \<Rightarrow> Inr (t, None)))) of
                             Inl e \<Rightarrow> Inl e
                           | Inr (result_truth, result_truth_array) \<Rightarrow>
                               (case result_statement' of
                                  None \<Rightarrow> Inl AssertionError
                                | Some st \<Rightarrow>
                                    (let occurrence_time' =
                                           (if may_need_occurrence_time st
                                            then result_occurrence_time j1 j2 else None)
                                     in if result_type = Judgment_type then
                                          Inr (finish (Judgment st result_truth result_truth_array
                                                         (new_Stamp occurrence_time')))
                                        else
                                          Inr (finish (Goal st result_truth result_truth_array
                                                         (new_Stamp occurrence_time'))))))))
              else
                (case result_statement' of
                   None \<Rightarrow> Inl AssertionError
                 | Some st \<Rightarrow> Inr (finish (new_Question st)))))"

text \<open>
  Instances of the absent collaborators for the examples: the classmethod
  \<open>Term.simplify\<close> above for \<open>simplify\<close>, the projection of a truth value by
  \<open>F_Projection\<close> (the projection at hand) at cycle \<open>T_c\<close> for \<open>Value_Projection\<close>, and
  an array function that is never reached by sentences without arrays.
\<close>

definition Value_Projection_by_F_Projection :: "int \<Rightarrow> Term Sentence \<Rightarrow> int \<Rightarrow> error + TruthValue" where
  "Value_Projection_by_F_Projection T_c j t =
     (case getevidentialvalues_fromsentence j of
        Inl e \<Rightarrow> Inl e
      | Inr (f, c) \<Rightarrow>
          (case occurrence_time (stamp j) of
             None \<Rightarrow> Inl TypeError
           | Some t_B \<Rightarrow> F_Projection T_c f c t_B t))"

definition absent_array_function ::
  "TruthValue list \<Rightarrow> TruthValue list
     \<Rightarrow> (string \<times> (real \<Rightarrow> real \<Rightarrow> real \<Rightarrow> real \<Rightarrow> error + TruthValue)) option
     \<Rightarrow> error + (TruthValue \<times> TruthValue list)" where
  "absent_array_function a1 a2 F = Inl AttributeError"

definition C3_j1 :: "Term Sentence" where
  "C3_j1 = Judgment (StatementTerm (AtomicTerm ''M'') (AtomicTerm ''P'') Inheritance None)
       (TruthValue 1 (9/10)) None (Stamp (Some 3) [3] False False None [])"

definition C3_j2 :: "Term Sentence" where
  "C3_j2 = Judgment (StatementTerm (AtomicTerm ''S'') (AtomicTerm ''M'') Inheritance None)
       (TruthValue 1 (9/10)) None (Stamp (Some 5) [4] False False None [])"

definition C3_Deduction ::
  "(string \<times> (real \<Rightarrow> real \<Rightarrow> real \<Rightarrow> real \<Rightarrow> error + TruthValue)) option" where
  "C3_Deduction = Some (''F_Deduction'', \<lambda>f1 c1 f2 c2. Inr (F_Deduction f1 c1 f2 c2))"

definition C3_h1 :: "Term Sentence" where
  "C3_h1 = Judgment (StatementTerm (AtomicTerm ''M'') (AtomicTerm ''P'') Implication None)
       (TruthValue 1 (9/10)) None (Stamp (Some 3) [3] False False None [])"

definition C3_h2 :: "Term Sentence" where
  "C3_h2 = Judgment (StatementTerm (AtomicTerm ''S'') (AtomicTerm ''M'') Implication None)
       (TruthValue 1 (9/10)) None (Stamp (Some 5) [4] False False None [])"

definition C3_h_result :: "Term Sentence" where
  "C3_h_result =
     Judgment (StatementTerm (AtomicTerm ''S'') (AtomicTerm ''P'') Implication None)
       (TruthValue 1 (27/40)) None
       (Stamp None [3, 4] False False (Some ''F_Deduction'') [C3_h1, C3_h2])"

definition C3_j_result :: "Term Sentence" where
  "C3_j_result =
     Judgment (StatementTerm (AtomicTerm ''S'') (AtomicTerm ''P'') Inheritance None)
       (TruthValue 1 (27/40)) None
       (Stamp (Some 5) [3, 4] False False (Some ''F_Deduction'') [C3_j1, C3_j2])"

text \<open>
  Premises for the rule functions of \<open>NALInferenceRules.py\<close>: \<open>(M --> P)\<close> as an
  eternal judgment, as an event at time 3 and as a question stamped with time 3, and
  \<open>(S --> M)\<close> as an event at time 5; and the conclusions \<open>(S --> P)\<close> that \<open>Deduction\<close>
  draws from them.
\<close>

definition C3_r1_eternal :: sentence where
  "C3_r1_eternal = Judgment (Statement (AtomicTerm ''M'') (AtomicTerm ''P'') Inheritance None)
       (TruthValue 1 (9/10)) None (Stamp None [3] False False None [])"

definition C3_r1 :: sentence where
  "C3_r1 = Judgment (Statement (AtomicTerm ''M'') (AtomicTerm ''P'') Inheritance None)
       (TruthValue 1 (9/10)) None (Stamp (Some 3) [3] False False None [])"

definition C3_q1 :: sentence where
  "C3_q1 = Question (Statement (AtomicTerm ''M'') (AtomicTerm ''P'') Inheritance None)
       (Stamp (Some 3) [3] False False None [])"

definition C3_r2 :: sentence where
  "C3_r2 = Judgment (Statement (AtomicTerm ''S'') (AtomicTerm ''M'') Inheritance None)
       (TruthValue 1 (9/10)) None (Stamp (Some 5) [4] False False None [])"

definition C3_r_eternal_result :: sentence where
  "C3_r_eternal_result =
     Judgment (Statement (AtomicTerm ''S'') (AtomicTerm ''P'') Inheritance None)
       (TruthValue 1 (81/100)) None (Stamp None [3, 4] False False None [])"

definition C3_r_result :: sentence where
  "C3_r_result =
     Judgment (Statement (AtomicTerm ''S'') (AtomicTerm ''P'') Inheritance None)
       (TruthValue 1 (81/100)) None (Stamp (Some 3) [3, 4] False False None [])"

definition C3_q_result :: sentence where
  "C3_q_result =
     Question (Statement (AtomicTerm ''S'') (AtomicTerm ''P'') Inheritance None)
       (Stamp None [3, 4] False False None [])"

section \<open>The Bag (NARSDataStructures/Bag.py)\<close>

text \<open>
  An item of a bag.  The class \<open>Item\<close> and its \<open>Budget\<close> are not among the sources at
  hand; of an item the bag reads the key and the budget's priority.  The weight that
  \<open>budget.get_priority_weight()\<close> returns for a priority is the argument \<open>pw\<close> of the
  operations.
\<close>

record 'k Item =
  key :: 'k
  priority :: real

text \<open>
  Modelled from the spec: \<open>Budget.set_priority\<close>, which is absent; priorities are
  clamped to \<open>[0, 1]\<close>.
\<close>

definition set_priority :: "real \<Rightarrow> real" where
  "set_priority p = max 0 (min 1 p)"

text \<open>
  Modelled from the spec: the class \<open>Depq\<close>, which is absent, a double-ended priority
  queue keyed by the raw priority given at insertion.  It is kept as a list in
  ascending order of that priority; the minimum is its head.  The queue holds
  references to the items; an entry of the model is the item as it was inserted, and
  of an extracted item the bag reads the key alone.
\<close>

definition insert_object :: "(real \<times> 'k Item) list \<Rightarrow> 'k Item \<Rightarrow> real \<Rightarrow> (real \<times> 'k Item) list" where
  "insert_object depq object' priority' = insort_key fst (priority', object') depq"

definition extract_min :: "(real \<times> 'k Item) list \<Rightarrow> ('k Item \<times> (real \<times> 'k Item) list) option" where
  "extract_min depq = (case depq of [] \<Rightarrow> None | x # xs \<Rightarrow> Some (snd x, xs))"

record 'k Bag =
  item_keys :: "'k list"
  weights :: "real list"
  weights_sum :: real
  ordered_items :: "(real \<times> 'k Item) list"
  item_lookup_dict :: "'k \<rightharpoonup> 'k Item"
  capacity :: int

definition Bag_init :: "int \<Rightarrow> 'k Bag" where
  "Bag_init capacity' =
     \<lparr>item_keys = [], weights = [], weights_sum = 0, ordered_items = [],
      item_lookup_dict = Map.empty, capacity = capacity'\<rparr>"

text \<open>
  The numpy operations on the two arrays: \<open>np.where(a == x)\<close> gives the positions of
  \<open>x\<close>; \<open>np.delete(a, idx)\<close> drops these positions and \<open>a[idx] = v\<close> overwrites them,
  both raising \<open>IndexError\<close> for a position out of range.
\<close>

definition np_where :: "'a list \<Rightarrow> 'a \<Rightarrow> nat list" where
  "np_where xs x = filter (\<lambda>i. xs ! i = x) [0..<length xs]"

definition np_delete :: "'a list \<Rightarrow> nat list \<Rightarrow> error + 'a list" where
  "np_delete xs idx =
     (if list_ex (\<lambda>i. length xs \<le> i) idx then Inl IndexError
      else Inr (map ((!) xs) (filter (\<lambda>i. \<not> List.member idx i) [0..<length xs])))"

definition np_assign :: "'a list \<Rightarrow> nat list \<Rightarrow> 'a \<Rightarrow> error + 'a list" where
  "np_assign xs idx v =
     (if list_ex (\<lambda>i. length xs \<le> i) idx then Inl IndexError
      else Inr (map (\<lambda>i. if List.member idx i then v else xs ! i) [0..<length xs]))"

text \<open>
  Modelled from the spec: the lookup map of the absent base class \<open>ItemContainer\<close>
  (\<open>_put_into_lookup_dict\<close>, \<open>_take_from_lookup_dict\<close>, \<open>peek_using_key\<close>).
\<close>

definition put_into_lookup_dict :: "'k Bag \<Rightarrow> 'k Item \<Rightarrow> 'k Bag" where
  "put_into_lookup_dict b item = b\<lparr>item_lookup_dict := (item_lookup_dict b)(key item \<mapsto> item)\<rparr>"

definition take_from_lookup_dict :: "'k Bag \<Rightarrow> 'k \<Rightarrow> 'k Bag" where
  "take_from_lookup_dict b k = b\<lparr>item_lookup_dict := (item_lookup_dict b)(k := None)\<rparr>"

definition peek_using_key :: "'k Bag \<Rightarrow> 'k \<Rightarrow> 'k Item option" where
  "peek_using_key b k = item_lookup_dict b k"

text \<open>
  The operations return their result, or the error raised, together with the bag as
  the call leaves it: an exception does not undo the assignments made before it.
\<close>

definition take_using_key :: "(real \<Rightarrow> real) \<Rightarrow> 'k Bag \<Rightarrow> 'k \<Rightarrow> (error + 'k Item) \<times> 'k Bag" where
  "take_using_key pw b k =
     (case item_lookup_dict b k of
        None \<Rightarrow> (Inl AssertionError, b)
      | Some item \<Rightarrow>
          (let item_idx = np_where (item_keys b) k;
               b1 = take_from_lookup_dict b k
           in case np_delete (item_keys b1) item_idx of
                Inl e \<Rightarrow> (Inl e, b1)
              | Inr ks \<Rightarrow>
                  (let b2 = b1\<lparr>item_keys := ks\<rparr>
                   in case np_delete (weights b2) item_idx of
                        Inl e \<Rightarrow> (Inl e, b2)
                      | Inr ws \<Rightarrow>
                          (Inr item,
                           b2\<lparr>weights := ws,
                              weights_sum := weights_sum b2 - pw (priority item)\<rparr>))))"

definition take_min :: "(real \<Rightarrow> real) \<Rightarrow> 'k Bag \<Rightarrow> (error + 'k Item) \<times> 'k Bag" where
  "take_min pw b =
     (case extract_min (ordered_items b) of
        None \<Rightarrow> (Inl IndexError, b)
      | Some (item, depq) \<Rightarrow>
          (case take_using_key pw (b\<lparr>ordered_items := depq\<rparr>) (key item) of
             (Inl e, b') \<Rightarrow> (Inl e, b')
           | (Inr _, b') \<Rightarrow> (Inr item, b')))"

text \<open>
  \<open>put\<close> ends with \<open>return item\<close>: the purged item is computed and dropped.  The
  assertion on the type of \<open>item.object\<close> is a matter of the types here.
\<close>

definition put :: "(real \<Rightarrow> real) \<Rightarrow> 'k Bag \<Rightarrow> 'k Item \<Rightarrow> (error + 'k Item) \<times> 'k Bag" where
  "put pw b item =
     (let b1 = put_into_lookup_dict b item;
          b2 = b1\<lparr>item_keys := item_keys b1 @ [key item]\<rparr>;
          weight = pw (priority item);
          b3 = b2\<lparr>weights := weights b2 @ [weight]\<rparr>;
          b4 = b3\<lparr>weights_sum := weights_sum b3 + weight\<rparr>;
          b5 = b4\<lparr>ordered_items := insert_object (ordered_items b4) item (priority item)\<rparr>
      in if int (length (item_keys b5)) > capacity b5 then
           (case take_min pw b5 of
              (Inl e, b6) \<Rightarrow> (Inl e, b6)
            | (Inr purged_item, b6) \<Rightarrow> (Inr item, b6))
         else (Inr item, b5))"

text \<open>
  \<open>change_priority\<close> mutates the budget of the item that the lookup map holds; the
  order structure is not touched.  (Under \<open>Config.GUI_USE_INTERFACE\<close> the item is
  taken from the lookup map and put back, which leaves the map as it was.)
\<close>

definition change_priority :: "(real \<Rightarrow> real) \<Rightarrow> 'k Bag \<Rightarrow> 'k \<Rightarrow> real \<Rightarrow> (error + unit) \<times> 'k Bag" where
  "change_priority pw b k new_priority =
     (case peek_using_key b k of
        None \<Rightarrow> (Inl AttributeError, b)
      | Some concept_item \<Rightarrow>
          (let current_weight = pw (priority concept_item);
               b1 = b\<lparr>weights_sum := weights_sum b - current_weight\<rparr>;
               concept_item' = concept_item\<lparr>priority := set_priority new_priority\<rparr>;
               b2 = b1\<lparr>item_lookup_dict := (item_lookup_dict b1)(k \<mapsto> concept_item')\<rparr>;
               new_weight = pw (priority concept_item');
               item_idx = np_where (item_keys b2) k
           in case np_assign (weights b2) item_idx new_weight of
                Inl e \<Rightarrow> (Inl e, b2)
              | Inr ws \<Rightarrow>
                  (Inr (), b2\<lparr>weights := ws, weights_sum := weights_sum b2 + new_weight\<rparr>)))"

text \<open>Sequences of the three operations; a caller goes on after an exception.\<close>

datatype 'k Operation = Put "'k Item" | Take_using_key 'k | Change_priority 'k real

fun apply_operation :: "(real \<Rightarrow> real) \<Rightarrow> 'k Bag \<Rightarrow> 'k Operation \<Rightarrow> 'k Bag" where
  "apply_operation pw b (Put item) = snd (put pw b item)"
| "apply_operation pw b (Take_using_key k) = snd (take_using_key pw b k)"
| "apply_operation pw b (Change_priority k p) = snd (change_priority pw b k p)"

fun run :: "(real \<Rightarrow> real) \<Rightarrow> 'k Bag \<Rightarrow> 'k Operation list \<Rightarrow> 'k Bag" where
  "run pw b [] = b"
| "run pw b (op # ops) = run pw (apply_operation pw b op) ops"

text \<open>Every \<open>put\<close> of the sequence places a new item: its key is not in the bag.\<close>

fun puts_are_new :: "(real \<Rightarrow> real) \<Rightarrow> 'k Bag \<Rightarrow> 'k Operation list \<Rightarrow> bool" where
  "puts_are_new pw b [] = True"
| "puts_are_new pw b (op # ops) =
     ((case op of Put item \<Rightarrow> item_lookup_dict b (key item) = None | _ \<Rightarrow> True)
      \<and> puts_are_new pw (apply_operation pw b op) ops)"

text \<open>
  The state that the operations keep: the keys of the array are distinct and are the
  keys of the lookup map, the weight at a position is the weight of the item stored
  under the key at that position, and the stored sum is the sum of the weights.
\<close>

definition weight_in :: "(real \<Rightarrow> real) \<Rightarrow> ('k \<rightharpoonup> 'k Item) \<Rightarrow> 'k \<Rightarrow> real" where
  "weight_in pw m k = (case m k of None \<Rightarrow> 0 | Some item \<Rightarrow> pw (priority item))"

definition bag_inv :: "(real \<Rightarrow> real) \<Rightarrow> 'k Bag \<Rightarrow> bool" where
  "bag_inv pw b \<longleftrightarrow>
     distinct (item_keys b)
     \<and> set (item_keys b) = dom (item_lookup_dict b)
     \<and> weights b = map (weight_in pw (item_lookup_dict b)) (item_keys b)
     \<and> weights_sum b = sum_list (weights b)"

text \<open>The bag after the assignments of \<open>put\<close> and before the check of the capacity.\<close>

definition put_appended :: "(real \<Rightarrow> real) \<Rightarrow> 'k Bag \<Rightarrow> 'k Item \<Rightarrow> 'k Bag" where
  "put_appended pw b item =
     b\<lparr>item_lookup_dict := (item_lookup_dict b)(key item \<mapsto> item),
       item_keys := item_keys b @ [key item],
       weights := weights b @ [pw (priority item)],
       weights_sum := weights_sum b + pw (priority item),
       ordered_items := insert_object (ordered_items b) item (priority item)\<rparr>"

text \<open>
  Example bags.  The weight of a priority is the priority itself; a bag of capacity 1
  that holds \<open>A\<close> at priority 0.1, and an item \<open>B\<close> at priority 0.9.
\<close>

definition identity_weight :: "real \<Rightarrow> real" where
  "identity_weight p = p"

definition C4_A :: "string Item" where
  "C4_A = \<lparr>key = ''A'', priority = 1/10\<rparr>"

definition C4_B :: "string Item" where
  "C4_B = \<lparr>key = ''B'', priority = 9/10\<rparr>"

definition C4_bag :: "string Bag" where
  "C4_bag = snd (put identity_weight (Bag_init 1) C4_A)"

text \<open>
  The order structure is in step with the bag: it is sorted by the priorities given at
  insertion, it has no entry twice, every entry is an item of the bag at its current
  priority, and every item of the bag is stored under its own key and has its entry.
\<close>

definition depq_in_sync :: "'k Bag \<Rightarrow> bool" where
  "depq_in_sync b \<longleftrightarrow>
     sorted (map fst (ordered_items b))
     \<and> distinct (ordered_items b)
     \<and> (\<forall>e \<in> set (ordered_items b).
           item_lookup_dict b (key (snd e)) = Some (snd e) \<and> fst e = priority (snd e))
     \<and> (\<forall>k item. item_lookup_dict b k = Some item
           \<longrightarrow> key item = k \<and> (priority item, item) \<in> set (ordered_items b))"





section \<open>Properties of the truth-value functions\<close>

lemma band_two: "band [a, b] = a * b"
  by (simp add: band_def)

lemma F_Difference_eq:
  "F_Difference f1 c1 f2 c2 = TruthValue (if f2 = 0 then f1 else 0) (c1 * c2)"
  by (simp add: F_Difference_def band_def py_not_def py_bool_def)

text \<open>
  Claim C1 (the Difference truth function returns frequency \<open>f1 * (1 - f2)\<close> and confidence
  \<open>c1 * c2\<close>).  The source evaluates \<open>band(f1, not (f2))\<close>: at \<open>f1 = 1\<close>,
  \<open>f2 = 1/2\<close>, \<open>c1 = c2 = 9/10\<close> it returns frequency 0, where the stated
  formula gives \<open>1/2\<close>; the confidence is \<open>81/100\<close> as stated.
\<close>

theorem F_Difference_at_half:
  "F_Difference 1 (9/10) (1/2) (9/10) = TruthValue 0 (81/100)
   \<and> frequency (F_Difference 1 (9/10) (1/2) (9/10)) \<noteq> 1 * (1 - 1/2)
   \<and> confidence (F_Difference 1 (9/10) (1/2) (9/10)) = (9/10) * (9/10)"
  by (simp add: F_Difference_eq)

lemma F_Projection_own_time:
  "T_c \<noteq> t_B \<Longrightarrow> F_Projection T_c f c t_B t_B = Inr (TruthValue f c)"
  by (simp add: F_Projection_def)

text \<open>
  Claim C9 (projecting a judgment to its own occurrence time returns the same frequency
  and confidence, for every current cycle number).  When the current cycle number equals
  the occurrence time, as for an event observed in the present cycle, the divisor
  \<open>abs(t_B - T_c) + abs(t_T - T_c)\<close> is zero and the source raises
  \<open>ZeroDivisionError\<close>: here at occurrence time 5, target time 5 and cycle 5.
\<close>

theorem Projection_own_time_at_now:
  "F_Projection 5 (9/10) (9/10) 5 5 = Inl ZeroDivisionError
   \<and> Projection 5 C9_judgment 5 = Inl ZeroDivisionError"
  by (simp add: F_Projection_def Projection_def C9_judgment_def)

section \<open>Properties of the immediate rules\<close>

text \<open>
  Claim C10 (for every question, the Negation rule returns no derived question: its
  question branch constructs no result and the rule fails, whereas Conversion and
  Contraposition construct a derived question).
\<close>

theorem Negation_fails_on_Question:
  "Negation (Question st sp) = Inl UnboundLocalError
   \<and> (\<exists>st' sp'. Conversion k (Question st sp) = Inr (Question st' sp'))
   \<and> (\<exists>st' sp'. Contraposition k (Question st sp) = Inr (Question st' sp'))"
  by (simp add: Negation_def Conversion_def Contraposition_def new_Question_def
      merge_sentence_evidential_base_into_self_def)

section \<open>Properties of Revision\<close>

lemma F_Revision_commute: "F_Revision k wp1 wn1 wp2 wn2 = F_Revision k wp2 wn2 wp1 wn1"
proof -
  have "wp1 + wp2 = wp2 + wp1" and "wn1 + wn2 = wn2 + wn1"
    by simp_all
  then show ?thesis
    unfolding F_Revision_def Let_def by (simp only:)
qed

lemma value'_map_stamp_Judgment [simp]: "value' (map_stamp g (Judgment s v a p)) = v"
  by simp

lemma value'_merge2_new_Judgment:
  "value' (merge2 (new_Judgment s v occ) j1 j2) = v"
  by (simp add: merge2_def new_Judgment_def merge_sentence_evidential_base_into_self_def)

lemma Revision_Judgments:
  assumes "get_formatted_string (Statement_term s1) = get_formatted_string (Statement_term s2)"
    and "c1 \<noteq> 1" and "c2 \<noteq> 1"
  shows "map_sum id value' (Revision k (Judgment s1 (TruthValue f1 c1) a1 p1)
            (Judgment s2 (TruthValue f2 c2) a2 p2))
         = F_Revision k (fst (revision_evidence k f1 c1)) (snd (revision_evidence k f1 c1))
             (fst (revision_evidence k f2 c2)) (snd (revision_evidence k f2 c2))"
  using assms
  by (simp add: Revision_def getevidence_from2sentences_def
      getevidentialvalues_from2sentences_def get_evidence_fromfreqconf_def Let_def
      value'_merge2_new_Judgment revision_evidence_def split: sum.split)

lemma evidence_nonneg:
  assumes "0 < k" "0 \<le> f" "f \<le> 1" "0 \<le> c" "c < 1"
  shows "0 \<le> fst (revision_evidence k f c)" and "0 \<le> snd (revision_evidence k f c)"
proof -
  have d: "0 < 1 - c" using assms by simp
  show "0 \<le> fst (revision_evidence k f c)"
    using assms d by (simp add: revision_evidence_def)
  have "k * f * c / (1 - c) \<le> k * c / (1 - c)"
  proof -
    have "k * f * c \<le> k * c"
      using assms by (simp add: mult_left_le mult_right_mono)
    then show ?thesis using d by (simp add: divide_right_mono)
  qed
  then show "0 \<le> snd (revision_evidence k f c)"
    by (simp add: revision_evidence_def)
qed

lemma F_Revision_defined:
  assumes "0 < k" "0 \<le> wp1" "0 \<le> wn1" "0 \<le> wp2" "0 \<le> wn2"
  shows "\<exists>t. F_Revision k wp1 wn1 wp2 wn2 = Inr t"
proof -
  have "wp1 + wp2 + (wn1 + wn2) + k \<noteq> 0" using assms by linarith
  moreover have "wp1 + wp2 \<noteq> wp1 + wp2 + (wn1 + wn2) \<Longrightarrow> wp1 + wp2 + (wn1 + wn2) \<noteq> 0"
    using assms by linarith
  ultimately show ?thesis
    by (auto simp: F_Revision_def mk_truth_def get_truthvalue_from_evidence_def
        get_confidence_from_evidence_def Let_def)
qed

text \<open>
  Claim C8 (for two judgments with the same statement and confidences strictly below 1,
  the truth value of \<open>Revision(j1, j2)\<close> equals that of \<open>Revision(j2, j1)\<close>).
  With the evidence constant positive and the truth values in their ranges both
  revisions return, and with the same truth value.
\<close>

theorem Revision_commutative:
  assumes "get_formatted_string (Statement_term s1) = get_formatted_string (Statement_term s2)"
    and "0 < k"
    and "0 \<le> f1" "f1 \<le> 1" "0 \<le> c1" "c1 < 1"
    and "0 \<le> f2" "f2 \<le> 1" "0 \<le> c2" "c2 < 1"
  shows "\<exists>t. map_sum id value' (Revision k (Judgment s1 (TruthValue f1 c1) a1 p1)
                   (Judgment s2 (TruthValue f2 c2) a2 p2)) = Inr t
             \<and> map_sum id value' (Revision k (Judgment s2 (TruthValue f2 c2) a2 p2)
                   (Judgment s1 (TruthValue f1 c1) a1 p1)) = Inr t"
proof -
  have ne: "c1 \<noteq> 1" "c2 \<noteq> 1" using assms by auto
  obtain t where t: "F_Revision k (fst (revision_evidence k f1 c1)) (snd (revision_evidence k f1 c1))
             (fst (revision_evidence k f2 c2)) (snd (revision_evidence k f2 c2)) = Inr t"
    using F_Revision_defined [of k "fst (revision_evidence k f1 c1)"
        "snd (revision_evidence k f1 c1)" "fst (revision_evidence k f2 c2)"
        "snd (revision_evidence k f2 c2)"]
      evidence_nonneg [of k f1 c1] evidence_nonneg [of k f2 c2] assms
    by blast
  have "map_sum id value' (Revision k (Judgment s1 (TruthValue f1 c1) a1 p1)
                   (Judgment s2 (TruthValue f2 c2) a2 p2)) = Inr t"
    using Revision_Judgments [OF assms(1) ne] t by simp
  moreover have "map_sum id value' (Revision k (Judgment s2 (TruthValue f2 c2) a2 p2)
                   (Judgment s1 (TruthValue f1 c1) a1 p1)) = Inr t"
    using Revision_Judgments [OF assms(1) [symmetric] ne(2) ne(1)] t
    by (simp add: F_Revision_commute [of k "fst (revision_evidence k f2 c2)"])
  ultimately show ?thesis by blast
qed

theorem Revision_commutative_witness:
  "map_sum id value' (Revision 1 C8_j1 C8_j2) = Inr (TruthValue (1/2) (18/19))
   \<and> map_sum id value' (Revision 1 C8_j2 C8_j1) = Inr (TruthValue (1/2) (18/19))"
proof -
  have a: "map_sum id value' (Revision 1 C8_j1 C8_j2) = Inr (TruthValue (1/2) (18/19))"
    by (simp add: C8_j1_def C8_j2_def Revision_def getevidence_from2sentences_def
      getevidentialvalues_from2sentences_def get_evidence_fromfreqconf_def Let_def
      value'_merge2_new_Judgment F_Revision_def mk_truth_def get_truthvalue_from_evidence_def
        get_confidence_from_evidence_def)
  from Revision_commutative [of "Statement (AtomicTerm ''A'') (AtomicTerm ''B'') Inheritance None"
      "Statement (AtomicTerm ''A'') (AtomicTerm ''B'') Inheritance None" 1 1 "9/10" 0 "9/10"
      None "Stamp None [1] False False None []" None "Stamp None [2] False False None []"]
  obtain t where "map_sum id value' (Revision 1 C8_j1 C8_j2) = Inr t"
    "map_sum id value' (Revision 1 C8_j2 C8_j1) = Inr t"
    by (auto simp: C8_j1_def C8_j2_def)
  with a show ?thesis by simp
qed

section \<open>Properties of the dispatcher\<close>

lemma different_copulas_rejected:
  assumes "get_copula (statement j1) \<noteq> get_copula (statement j2)"
  shows "do_inference_two_premise k II EI Diff j1 j2 = Inr ([], [], False)"
  using assms unfolding do_inference_two_premise_def Let_def by simp

lemma mixed_symmetry_rejected:
  assumes "is_symmetric (get_copula (statement j1)) \<noteq> is_symmetric (get_copula (statement j2))"
  shows "do_inference_two_premise k II EI Diff j1 j2 = Inr ([], [], False)"
proof -
  from assms have "get_copula (statement j1) \<noteq> get_copula (statement j2)" by auto
  then show ?thesis by (rule different_copulas_rejected)
qed

text \<open>
  Claim C2 (for two premises that share a middle term, one with a symmetric and one with
  an asymmetric copula, the dispatcher produces an Analogy derivation rather than an
  empty list).  The dispatcher returns the empty list whenever the two copulas differ,
  before it reaches its Analogy branches: for \<open>(M --> P)\<close> and \<open>(S <-> M)\<close>, in either
  order, nothing is derived, although \<open>Analogy\<close> itself derives \<open>(S --> P)\<close> from them.
\<close>

theorem Analogy_not_dispatched:
  "do_inference_two_premise 1 II EI Diff C2_j1 C2_j2 = Inr ([], [], False)
   \<and> do_inference_two_premise 1 II EI Diff C2_j2 C2_j1 = Inr ([], [], False)
   \<and> map_sum id statement (Analogy C2_j1 C2_j2)
       = Inr (Statement (AtomicTerm ''S'') (AtomicTerm ''P'') Inheritance None)"
proof -
  have a: "do_inference_two_premise 1 II EI Diff C2_j1 C2_j2 = Inr ([], [], False)"
    by (rule different_copulas_rejected) (simp add: C2_j1_def C2_j2_def)
  have b: "do_inference_two_premise 1 II EI Diff C2_j2 C2_j1 = Inr ([], [], False)"
    by (rule different_copulas_rejected) (simp add: C2_j1_def C2_j2_def)
  have c: "map_sum id statement (Analogy C2_j1 C2_j2)
       = Inr (Statement (AtomicTerm ''S'') (AtomicTerm ''P'') Inheritance None)"
    by (simp add: C2_j1_def C2_j2_def Analogy_def Analogy_statement_def Term_eq_def Let_def
        getevidentialvalues_from2sentences_def merge2_def new_Judgment_def
        merge_sentence_evidential_base_into_self_def)
  from a b c show ?thesis by simp
qed

theorem Analogy_not_dispatched_witness:
  "do_inference_two_premise 1 absent_rule absent_rule absent_rule C2_j1 C2_j2 = Inr ([], [], False)
   \<and> do_inference_two_premise 1 absent_rule absent_rule absent_rule C2_j2 C2_j1
       = Inr ([], [], False)"
  using Analogy_not_dispatched [of absent_rule absent_rule absent_rule] by simp

section \<open>Properties of the immediate inference step\<close>

lemma F_Conversion_defined:
  assumes "0 < k" "0 \<le> f" "0 \<le> c"
  shows "F_Conversion k f c = Inr (TruthValue 1 (f * c / (f * c + k)))"
proof -
  have "0 \<le> f * c" using assms by simp
  then have "f * c + k \<noteq> 0" using assms by linarith
  then show ?thesis
    by (simp add: F_Conversion_def band_def mk_truth_def get_truthvalue_from_evidence_def
        get_confidence_from_evidence_def Let_def)
qed

lemma F_Contraposition_defined:
  assumes "0 < k" "f \<le> 1" "0 \<le> c"
  shows "\<exists>t. F_Contraposition k f c = Inr t"
proof -
  have "0 \<le> (1 - f) * c" using assms by simp
  then have "(1 - f) * c + k \<noteq> 0" using assms by linarith
  moreover have "k \<noteq> 0" using assms by simp
  ultimately show ?thesis
    by (auto simp: F_Contraposition_def band_def bnot_def mk_truth_def
        get_truthvalue_from_evidence_def get_confidence_from_evidence_def Let_def)
qed

lemma Negation_Judgment:
  "\<exists>sp'. Negation (Judgment st v arr sp)
     = Inr (Judgment (Statement (get_subject_term st) (get_predicate_term st) (get_copula st)
              (Some Negation_connector)) (F_Negation (frequency v) (confidence v)) None sp')"
  by (simp add: Negation_def new_Judgment_def merge_sentence_evidential_base_into_self_def Let_def)

lemma Conversion_Judgment:
  assumes "0 < k" "0 \<le> frequency v" "0 \<le> confidence v"
  shows "\<exists>t sp'. Conversion k (Judgment st v arr sp)
     = Inr (Judgment (Statement (get_predicate_term st) (get_subject_term st) (get_copula st)
              None) t None sp')"
  using F_Conversion_defined [OF assms]
  by (simp add: Conversion_def new_Judgment_def merge_sentence_evidential_base_into_self_def Let_def)

lemma Contraposition_Judgment:
  assumes "0 < k" "frequency v \<le> 1" "0 \<le> confidence v"
  shows "\<exists>t sp'. Contraposition k (Judgment st v arr sp)
     = Inr (Judgment (Statement (CompoundTerm [get_predicate_term st] Negation_connector)
              (CompoundTerm [get_subject_term st] Negation_connector) (get_copula st) None)
              t None sp')"
proof -
  obtain t where "F_Contraposition k (frequency v) (confidence v) = Inr t"
    using F_Contraposition_defined [OF assms] by blast
  then show ?thesis
    by (simp add: Contraposition_def new_Judgment_def merge_sentence_evidential_base_into_self_def Let_def)
qed

text \<open>What the immediate step returns, by the two guards.\<close>

lemma do_inference_one_premise_Judgment:
  assumes "Negation (Judgment st v arr sp) = Inr n"
    and "Conversion k (Judgment st v arr sp) = Inr cv"
    and "Contraposition k (Judgment st v arr sp) = Inr cp"
  shows "do_inference_one_premise k (Judgment st v arr sp)
     = Inr ([n] @ (if \<not> is_symmetric (get_copula st) \<and> frequency v > 0 then [cv] else [])
              @ (if get_copula st = Implication \<and> frequency v < 1 then [cp] else []),
            [''Negation'']
              @ (if \<not> is_symmetric (get_copula st) \<and> frequency v > 0 then [''Conversion''] else [])
              @ (if get_copula st = Implication \<and> frequency v < 1 then [''Contraposition''] else []))"
  using assms by (simp add: do_inference_one_premise_def)

lemma immediate_rules_exact:
  assumes "0 < k" "0 \<le> f" "f \<le> 1" "0 \<le> c" "c \<le> 1"
  shows "\<exists>derived printed.
           do_inference_one_premise k (Judgment st (TruthValue f c) arr sp) = Inr (derived, printed)
           \<and> Inr ` set derived =
               {Negation (Judgment st (TruthValue f c) arr sp)}
               \<union> (if \<not> is_symmetric (get_copula st) \<and> 0 < f
                  then {Conversion k (Judgment st (TruthValue f c) arr sp)} else {})
               \<union> (if get_copula st = Implication \<and> f < 1
                  then {Contraposition k (Judgment st (TruthValue f c) arr sp)} else {})
           \<and> (''Negation'' \<in> set printed)
           \<and> (''Conversion'' \<in> set printed \<longleftrightarrow> \<not> is_symmetric (get_copula st) \<and> 0 < f)
           \<and> (''Contraposition'' \<in> set printed \<longleftrightarrow> get_copula st = Implication \<and> f < 1)
           \<and> length derived = length printed \<and> length derived \<le> 3"
proof -
  let ?j = "Judgment st (TruthValue f c) arr sp"
  obtain n where n: "Negation ?j = Inr n"
    using Negation_Judgment [of st "TruthValue f c" arr sp] by auto
  obtain cv where cv: "Conversion k ?j = Inr cv"
    using Conversion_Judgment [of k "TruthValue f c" st arr sp] assms by auto
  obtain cp where cp: "Contraposition k ?j = Inr cp"
    using Contraposition_Judgment [of k "TruthValue f c" st arr sp] assms by auto
  show ?thesis
    unfolding do_inference_one_premise_Judgment [OF n cv cp] n cv cp
    by (intro exI conjI refl) auto
qed

section \<open>Image rules and the immediate inference step\<close>

lemma collect_map_Inr:
  "collect (map g xs) = Inr ys \<Longrightarrow> y \<in> set ys \<Longrightarrow> \<exists>x\<in>set xs. g x = Inr y"
proof (induction xs arbitrary: ys)
  case Nil
  then show ?case by simp
next
  case (Cons a xs)
  show ?case
  proof (cases "g a")
    case (Inl e)
    with Cons.prems show ?thesis by simp
  next
    case (Inr b)
    with Cons.prems obtain zs where zs: "collect (map g xs) = Inr zs" "ys = b # zs"
      by (auto split: sum.splits)
    with Cons.prems Inr Cons.IH [OF zs(1)] show ?thesis by auto
  qed
qed

lemma image_result_statement: "image_result j rs = Inr r \<Longrightarrow> statement r = rs"
  by (cases j)
    (auto simp: image_result_def new_Judgment_def new_Question_def
      merge_sentence_evidential_base_into_self_def)

lemma ExtensionalImage_statement:
  assumes "ExtensionalImage j = Inr imgs" and "r \<in> set imgs"
  shows "\<exists>subs i. subterms (get_subject_term (statement j)) = Inr subs
           \<and> statement r =
               Statement (subs ! i)
                 (CompoundTerm (image_subterms (get_predicate_term (statement j)) subs i)
                    ExtensionalImage_connector) Inheritance None"
proof -
  from assms(1) obtain subs where subs: "subterms (get_subject_term (statement j)) = Inr subs"
    by (auto simp: ExtensionalImage_def split: sum.splits)
  with assms(1) have "collect (map (\<lambda>i1. image_result j
        (Statement (subs ! i1)
           (CompoundTerm (image_subterms (get_predicate_term (statement j)) subs i1)
              ExtensionalImage_connector) Inheritance None)) [0..<length subs]) = Inr imgs"
    by (simp add: ExtensionalImage_def Let_def)
  from collect_map_Inr [OF this assms(2)] obtain i where
    "image_result j (Statement (subs ! i)
           (CompoundTerm (image_subterms (get_predicate_term (statement j)) subs i)
              ExtensionalImage_connector) Inheritance None) = Inr r"
    by blast
  from image_result_statement [OF this] subs show ?thesis by blast
qed

lemma IntensionalImage_statement:
  assumes "IntensionalImage j = Inr imgs" and "r \<in> set imgs"
  shows "\<exists>subs i. subterms (get_predicate_term (statement j)) = Inr subs
           \<and> statement r =
               Statement
                 (CompoundTerm (image_subterms (get_subject_term (statement j)) subs i)
                    ExtensionalImage_connector) (subs ! i) Inheritance None"
proof -
  from assms(1) obtain subs where subs: "subterms (get_predicate_term (statement j)) = Inr subs"
    by (auto simp: IntensionalImage_def split: sum.splits)
  with assms(1) have "collect (map (\<lambda>i1. image_result j
        (Statement
           (CompoundTerm (image_subterms (get_subject_term (statement j)) subs i1)
              ExtensionalImage_connector) (subs ! i1) Inheritance None)) [0..<length subs]) = Inr imgs"
    by (simp add: IntensionalImage_def Let_def)
  from collect_map_Inr [OF this assms(2)] obtain i where
    "image_result j (Statement
           (CompoundTerm (image_subterms (get_subject_term (statement j)) subs i)
              ExtensionalImage_connector) (subs ! i) Inheritance None) = Inr r"
    by blast
  from image_result_statement [OF this] subs show ?thesis by blast
qed

lemma image_term_is_longer:
  "subterms t = Inr subs \<Longrightarrow> t \<noteq> CompoundTerm (image_subterms R subs i) c"
proof
  assume s: "subterms t = Inr subs" and "t = CompoundTerm (image_subterms R subs i) c"
  then have "subs = image_subterms R subs i" by simp
  then have "length subs = length (image_subterms R subs i)" by simp
  then show False by (simp add: image_subterms_def)
qed

lemma derived_statement:
  assumes "do_inference_one_premise k j = Inr (derived, printed)" and "d \<in> set derived"
  shows "statement d = Statement (get_subject_term (statement j)) (get_predicate_term (statement j))
                         (get_copula (statement j)) (Some Negation_connector)
       \<or> statement d = Statement (get_predicate_term (statement j)) (get_subject_term (statement j))
                         (get_copula (statement j)) None
       \<or> statement d = Statement (CompoundTerm [get_predicate_term (statement j)] Negation_connector)
                         (CompoundTerm [get_subject_term (statement j)] Negation_connector)
                         (get_copula (statement j)) None"
proof (cases j)
  case (Judgment st v arr sp)
  have n: "Negation j = Inr r \<Longrightarrow> statement r = Statement (get_subject_term (statement j))
      (get_predicate_term (statement j)) (get_copula (statement j)) (Some Negation_connector)" for r
    using Judgment
    by (auto simp: Negation_def new_Judgment_def merge_sentence_evidential_base_into_self_def Let_def)
  have cv: "Conversion k j = Inr r \<Longrightarrow> statement r = Statement (get_predicate_term (statement j))
      (get_subject_term (statement j)) (get_copula (statement j)) None" for r
    using Judgment
    by (auto simp: Conversion_def new_Judgment_def merge_sentence_evidential_base_into_self_def
        Let_def split: sum.splits)
  have cp: "Contraposition k j = Inr r \<Longrightarrow> statement r =
      Statement (CompoundTerm [get_predicate_term (statement j)] Negation_connector)
        (CompoundTerm [get_subject_term (statement j)] Negation_connector)
        (get_copula (statement j)) None" for r
    using Judgment
    by (auto simp: Contraposition_def new_Judgment_def merge_sentence_evidential_base_into_self_def
        Let_def split: sum.splits)
  from assms have "Negation j = Inr d \<or> Conversion k j = Inr d \<or> Contraposition k j = Inr d"
    unfolding do_inference_one_premise_def Judgment
    by (auto split: sum.splits if_splits)
  with n cv cp show ?thesis by blast
next
  case (Goal st v arr sp)
  with assms show ?thesis by (simp add: do_inference_one_premise_def)
next
  case (Question st sp)
  with assms show ?thesis by (simp add: do_inference_one_premise_def)
qed

lemma images_not_derived:
  assumes "do_inference_one_premise k j = Inr (derived, printed)"
  shows "ExtensionalImage j = Inr imgs \<Longrightarrow> set imgs \<inter> set derived = {}"
    and "IntensionalImage j = Inr imgs' \<Longrightarrow> set imgs' \<inter> set derived = {}"
proof -
  show "set imgs \<inter> set derived = {}" if e: "ExtensionalImage j = Inr imgs"
  proof (rule ccontr)
    assume "set imgs \<inter> set derived \<noteq> {}"
    then obtain r where r: "r \<in> set imgs" "r \<in> set derived" by blast
    from ExtensionalImage_statement [OF e r(1)] obtain subs i where
      s: "subterms (get_subject_term (statement j)) = Inr subs"
      "statement r = Statement (subs ! i)
                 (CompoundTerm (image_subterms (get_predicate_term (statement j)) subs i)
                    ExtensionalImage_connector) Inheritance None"
      by blast
    from derived_statement [OF assms r(2)] s(2) image_term_is_longer [OF s(1)]
      image_term_is_longer [OF s(1), THEN not_sym]
    show False by auto
  qed
  show "set imgs' \<inter> set derived = {}" if e: "IntensionalImage j = Inr imgs'"
  proof (rule ccontr)
    assume "set imgs' \<inter> set derived \<noteq> {}"
    then obtain r where r: "r \<in> set imgs'" "r \<in> set derived" by blast
    from IntensionalImage_statement [OF e r(1)] obtain subs i where
      s: "subterms (get_predicate_term (statement j)) = Inr subs"
      "statement r = Statement
                 (CompoundTerm (image_subterms (get_subject_term (statement j)) subs i)
                    ExtensionalImage_connector) (subs ! i) Inheritance None"
      by blast
    from derived_statement [OF assms r(2)] s(2) image_term_is_longer [OF s(1)]
      image_term_is_longer [OF s(1), THEN not_sym]
    show False by auto
  qed
qed

lemma ExtensionalImage_C7_j: "ExtensionalImage C7_j = Inr [C7_image1, C7_image2]"
  by (simp add: ExtensionalImage_def C7_j_def C7_image1_def C7_image2_def image_subterms_def
      image_result_def new_Judgment_def new_Stamp_def upt_rec
      merge_sentence_evidential_base_into_self_def TERM_IMAGE_PLACEHOLDER_def Let_def)

lemma do_inference_one_premise_C7_j:
  "do_inference_one_premise 1 C7_j
     = Inr ([C7_negation, C7_conversion], [''Negation'', ''Conversion''])"
proof -
  have n: "Negation C7_j = Inr C7_negation"
    by (simp add: Negation_def C7_j_def C7_negation_def F_Negation_def new_Judgment_def
        new_Stamp_def merge_sentence_evidential_base_into_self_def Let_def)
  have "F_Conversion 1 1 (9/10) = Inr (TruthValue 1 (9/19))"
    using F_Conversion_defined [of 1 1 "9/10"] by simp
  then have cv: "Conversion 1 C7_j = Inr C7_conversion"
    by (simp add: Conversion_def C7_j_def C7_conversion_def new_Judgment_def
        new_Stamp_def merge_sentence_evidential_base_into_self_def Let_def)
  show ?thesis
    using n cv unfolding do_inference_one_premise_def
    by (simp add: C7_j_def)
qed

text \<open>
  Claim C7 (for every judgment fed to the immediate inference step: Negation is always
  derived; Conversion is derived if and only if the copula is asymmetric and the
  frequency is above 0; Contraposition if and only if the copula is implication and the
  frequency is below 1; and Extensional and Intensional Image derivations are produced
  for eligible statements).  The last part fails: for the judgment
  \<open>((*,S,P) --> R)\<close> with truth \<open>(1, 0.9)\<close> the rule \<open>ExtensionalImage\<close> has two
  results, and the immediate step returns the negation and the conversion only.
\<close>

theorem immediate_rules_no_image:
  "ExtensionalImage C7_j = Inr [C7_image1, C7_image2]
   \<and> do_inference_one_premise 1 C7_j
       = Inr ([C7_negation, C7_conversion], [''Negation'', ''Conversion''])
   \<and> C7_image1 \<notin> set [C7_negation, C7_conversion]
   \<and> C7_image2 \<notin> set [C7_negation, C7_conversion]"
proof -
  have c: "C7_image1 \<notin> set [C7_negation, C7_conversion]"
    "C7_image2 \<notin> set [C7_negation, C7_conversion]"
    by (simp_all add: C7_image1_def C7_image2_def C7_negation_def C7_conversion_def)
  from ExtensionalImage_C7_j do_inference_one_premise_C7_j c show ?thesis by simp
qed

text \<open>
  Claim C7, amended: with the evidence constant positive and the truth value in its
  range, the immediate step returns exactly the results of Negation (always), of
  Conversion (if and only if the copula is not symmetric and the frequency is above 0)
  and of Contraposition (if and only if the copula is implication and the frequency is
  below 1), and it prints these rule names; no result of \<open>ExtensionalImage\<close> or
  \<open>IntensionalImage\<close> is among the derived sentences.
\<close>

theorem immediate_rules_derived:
  assumes "0 < k" "0 \<le> f" "f \<le> 1" "0 \<le> c" "c \<le> 1"
  shows "\<exists>derived printed.
           do_inference_one_premise k (Judgment st (TruthValue f c) arr sp) = Inr (derived, printed)
           \<and> Inr ` set derived =
               {Negation (Judgment st (TruthValue f c) arr sp)}
               \<union> (if \<not> is_symmetric (get_copula st) \<and> 0 < f
                  then {Conversion k (Judgment st (TruthValue f c) arr sp)} else {})
               \<union> (if get_copula st = Implication \<and> f < 1
                  then {Contraposition k (Judgment st (TruthValue f c) arr sp)} else {})
           \<and> (''Negation'' \<in> set printed)
           \<and> (''Conversion'' \<in> set printed \<longleftrightarrow> \<not> is_symmetric (get_copula st) \<and> 0 < f)
           \<and> (''Contraposition'' \<in> set printed \<longleftrightarrow> get_copula st = Implication \<and> f < 1)
           \<and> length derived = length printed \<and> length derived \<le> 3
           \<and> (\<forall>imgs. ExtensionalImage (Judgment st (TruthValue f c) arr sp) = Inr imgs
                  \<longrightarrow> set imgs \<inter> set derived = {})
           \<and> (\<forall>imgs. IntensionalImage (Judgment st (TruthValue f c) arr sp) = Inr imgs
                  \<longrightarrow> set imgs \<inter> set derived = {})"
proof -
  let ?j = "Judgment st (TruthValue f c) arr sp"
  from immediate_rules_exact [OF assms, of st arr sp]
  obtain derived printed where d:
    "do_inference_one_premise k ?j = Inr (derived, printed)"
    and rest: "Inr ` set derived =
               {Negation ?j}
               \<union> (if \<not> is_symmetric (get_copula st) \<and> 0 < f then {Conversion k ?j} else {})
               \<union> (if get_copula st = Implication \<and> f < 1 then {Contraposition k ?j} else {})"
      "''Negation'' \<in> set printed"
      "''Conversion'' \<in> set printed \<longleftrightarrow> \<not> is_symmetric (get_copula st) \<and> 0 < f"
      "''Contraposition'' \<in> set printed \<longleftrightarrow> get_copula st = Implication \<and> f < 1"
      "length derived = length printed" "length derived \<le> 3"
    by blast
  have "\<forall>imgs. ExtensionalImage ?j = Inr imgs \<longrightarrow> set imgs \<inter> set derived = {}"
    using images_not_derived(1) [OF d] by blast
  moreover have "\<forall>imgs. IntensionalImage ?j = Inr imgs \<longrightarrow> set imgs \<inter> set derived = {}"
    using images_not_derived(2) [OF d] by blast
  ultimately show ?thesis using d rest by blast
qed

theorem immediate_rules_derived_witness:
  "(0::real) < 1 \<and> (0::real) \<le> 9/10 \<and> (9/10::real) \<le> 1
   \<and> (\<exists>derived printed. do_inference_one_premise 1 C7_j = Inr (derived, printed)
        \<and> ''Negation'' \<in> set printed \<and> ''Conversion'' \<in> set printed
        \<and> ''Contraposition'' \<notin> set printed
        \<and> set [C7_image1, C7_image2] \<inter> set derived = {})"
proof -
  from immediate_rules_derived [of 1 1 "9/10"
      "Statement (CompoundTerm [AtomicTerm ''S'', AtomicTerm ''P''] Product)
         (AtomicTerm ''R'') Inheritance None" None "Stamp None [1] False False None []"]
  obtain derived printed where d: "do_inference_one_premise 1 C7_j = Inr (derived, printed)"
    and p: "''Negation'' \<in> set printed" "''Conversion'' \<in> set printed"
      "''Contraposition'' \<notin> set printed"
    and i: "\<forall>imgs. ExtensionalImage C7_j = Inr imgs \<longrightarrow> set imgs \<inter> set derived = {}"
    unfolding C7_j_def by auto
  from i ExtensionalImage_C7_j have "set [C7_image1, C7_image2] \<inter> set derived = {}"
    by blast
  with d p show ?thesis by auto
qed

section \<open>Occurrence time of a conclusion\<close>

lemma occurrence_time_map_stamp_set_evidential_base [simp]:
  "occurrence_time (set_evidential_base b sp) = occurrence_time sp"
  by (cases sp) simp

lemma occurrence_time_set_derivation [simp]:
  "occurrence_time (set_derivation d pp sp) = occurrence_time sp"
  by (cases sp) simp

lemma stamp_map_stamp [simp]: "stamp (map_stamp g r) = g (stamp r)"
  by (cases r) simp_all

lemma statement_map_stamp [simp]: "statement (map_stamp g r) = statement r"
  by (cases r) simp_all

lemma type_of_map_stamp [simp]: "type_of (map_stamp g r) = type_of r"
  by (cases r) simp_all

subsection \<open>The rule functions of NALInferenceRules.py\<close>

lemma merge2_occurrence_time:
  "occurrence_time (stamp (merge2 r j1 j2)) = occurrence_time (stamp r)"
  by (simp add: merge2_def merge_sentence_evidential_base_into_self_def)

lemma merge2_type_of: "type_of (merge2 r j1 j2) = type_of r"
  by (simp add: merge2_def merge_sentence_evidential_base_into_self_def)

lemma merge2_new_Judgment:
  "occurrence_time (stamp (merge2 (new_Judgment st tv occ) j1 j2)) = occ
   \<and> type_of (merge2 (new_Judgment st tv occ) j1 j2) = Judgment_type"
  by (simp add: merge2_occurrence_time merge2_type_of new_Judgment_def new_Stamp_def)

lemma merge2_new_Question:
  "occurrence_time (stamp (merge2 (new_Question st) j1 j2)) = None
   \<and> type_of (merge2 (new_Question st) j1 j2) = Question_type"
  by (simp add: merge2_occurrence_time merge2_type_of new_Question_def new_Stamp_def)

text \<open>
  Every rule ends in one of two ways: a judgment with the occurrence time of \<open>j1\<close>, or
  a question without one.
\<close>

lemma carries_first_time_Judgment:
  "occurrence_time (stamp (merge2 (new_Judgment st tv (occurrence_time (stamp j1))) j1 j2)) =
     (if type_of (merge2 (new_Judgment st tv (occurrence_time (stamp j1))) j1 j2) = Question_type then None else occurrence_time (stamp j1))"
  by (simp add: merge2_new_Judgment)

lemma carries_first_time_Question:
  "occurrence_time (stamp (merge2 (new_Question st) j1 j2)) =
     (if type_of (merge2 (new_Question st) j1 j2) = Question_type then None else occurrence_time (stamp j1))"
  by (simp add: merge2_new_Question)

lemma Revision_occurrence_time:
  assumes "Revision k j1 j2 = Inr r"
  shows "occurrence_time (stamp r) =
     (if type_of r = Question_type then None else occurrence_time (stamp j1))"
proof -
  from assms obtain st tv where
    "r = merge2 (new_Judgment st tv (occurrence_time (stamp j1))) j1 j2"
    by (auto simp: Revision_def Let_def split: if_splits sum.splits prod.splits)
  then show ?thesis by (simp add: carries_first_time_Judgment)
qed

lemma Deduction_occurrence_time:
  assumes "Deduction j1 j2 = Inr r"
  shows "occurrence_time (stamp r) =
     (if type_of r = Question_type then None else occurrence_time (stamp j1))"
proof (cases j1)
  case (Judgment st v arr sp)
  with assms obtain st' tv where
    "r = merge2 (new_Judgment st' tv (occurrence_time (stamp j1))) j1 j2"
    by (auto simp: Deduction_def Let_def split: sum.splits prod.splits)
  then show ?thesis by (simp add: carries_first_time_Judgment)
next
  case (Goal st v arr sp)
  with assms show ?thesis by (simp add: Deduction_def Let_def)
next
  case (Question st sp)
  with assms obtain st' where "r = merge2 (new_Question st') j1 j2"
    by (auto simp: Deduction_def Let_def)
  then show ?thesis by (simp add: carries_first_time_Question)
qed

lemma Analogy_occurrence_time:
  assumes "Analogy j1 j2 = Inr r"
  shows "occurrence_time (stamp r) =
     (if type_of r = Question_type then None else occurrence_time (stamp j1))"
proof (cases j1)
  case (Judgment st v arr sp)
  with assms obtain st' tv where
    "r = merge2 (new_Judgment st' tv (occurrence_time (stamp j1))) j1 j2"
    by (auto simp: Analogy_def split: sum.splits prod.splits)
  then show ?thesis by (simp add: carries_first_time_Judgment)
next
  case (Goal st v arr sp)
  with assms show ?thesis by (simp add: Analogy_def split: sum.splits)
next
  case (Question st sp)
  with assms obtain st' where "r = merge2 (new_Question st') j1 j2"
    by (auto simp: Analogy_def split: sum.splits)
  then show ?thesis by (simp add: carries_first_time_Question)
qed

lemma Resemblance_occurrence_time:
  assumes "Resemblance j1 j2 = Inr r"
  shows "occurrence_time (stamp r) =
     (if type_of r = Question_type then None else occurrence_time (stamp j1))"
proof (cases j1)
  case (Judgment st v arr sp)
  with assms obtain st' tv where
    "r = merge2 (new_Judgment st' tv (occurrence_time (stamp j1))) j1 j2"
    by (auto simp: Resemblance_def split: sum.splits prod.splits)
  then show ?thesis by (simp add: carries_first_time_Judgment)
next
  case (Goal st v arr sp)
  with assms show ?thesis by (simp add: Resemblance_def split: sum.splits)
next
  case (Question st sp)
  with assms obtain st' where "r = merge2 (new_Question st') j1 j2"
    by (auto simp: Resemblance_def split: sum.splits)
  then show ?thesis by (simp add: carries_first_time_Question)
qed

lemma weak_rule_occurrence_time:
  assumes "weak_rule result_statement F j1 j2 = Inr r"
  shows "occurrence_time (stamp r) =
     (if type_of r = Question_type then None else occurrence_time (stamp j1))"
proof (cases j1)
  case (Judgment st v arr sp)
  with assms obtain tv where
    "r = merge2 (new_Judgment result_statement tv (occurrence_time (stamp j1))) j1 j2"
    by (auto simp: weak_rule_def split: sum.splits prod.splits)
  then show ?thesis by (simp add: carries_first_time_Judgment)
next
  case (Goal st v arr sp)
  with assms show ?thesis by (simp add: weak_rule_def)
next
  case (Question st sp)
  with assms have "r = merge2 (new_Question result_statement) j1 j2"
    by (simp add: weak_rule_def)
  then show ?thesis by (simp add: carries_first_time_Question)
qed

lemma Comparison_occurrence_time:
  assumes "Comparison k j1 j2 = Inr r"
  shows "occurrence_time (stamp r) =
     (if type_of r = Question_type then None else occurrence_time (stamp j1))"
proof -
  from assms obtain result_statement where
    "weak_rule result_statement (F_Comparison k) j1 j2 = Inr r"
    by (auto simp: Comparison_def Let_def split: if_splits)
  then show ?thesis by (rule weak_rule_occurrence_time)
qed

lemma rules_occurrence_time:
  assumes "R \<in> {Revision k, Deduction, Analogy, Resemblance, Abduction k, Induction k,
             Exemplification k, Comparison k}"
    and "R j1 j2 = Inr r"
  shows "occurrence_time (stamp r) =
     (if type_of r = Question_type then None else occurrence_time (stamp j1))"
proof -
  from assms(1) consider "R = Revision k" | "R = Deduction" | "R = Analogy"
    | "R = Resemblance" | "R = Abduction k" | "R = Induction k" | "R = Exemplification k"
    | "R = Comparison k"
    by blast
  then show ?thesis
  proof cases
    case 1 with assms(2) show ?thesis by (simp add: Revision_occurrence_time)
  next
    case 2 with assms(2) show ?thesis by (simp add: Deduction_occurrence_time)
  next
    case 3 with assms(2) show ?thesis by (simp add: Analogy_occurrence_time)
  next
    case 4 with assms(2) show ?thesis by (simp add: Resemblance_occurrence_time)
  next
    case 5
    with assms(2) obtain result_statement where
      "weak_rule result_statement (F_Abduction k) j1 j2 = Inr r"
      by (simp add: Abduction_def)
    then show ?thesis by (rule weak_rule_occurrence_time)
  next
    case 6
    with assms(2) obtain result_statement where
      "weak_rule result_statement (F_Induction k) j1 j2 = Inr r"
      by (simp add: Induction_def)
    then show ?thesis by (rule weak_rule_occurrence_time)
  next
    case 7
    with assms(2) obtain result_statement where
      "weak_rule result_statement (F_Exemplification k) j1 j2 = Inr r"
      by (simp add: Exemplification_def)
    then show ?thesis by (rule weak_rule_occurrence_time)
  next
    case 8 with assms(2) show ?thesis by (simp add: Comparison_occurrence_time)
  qed
qed

text \<open>\<open>Deduction\<close> returns for every pair of judgments.\<close>

lemma Deduction_Judgments:
  "Deduction (Judgment s1 v1 a1 sp1) (Judgment s2 v2 a2 sp2) =
     Inr (merge2
            (new_Judgment
               (Statement (get_subject_term s2) (get_predicate_term s1) (get_copula s1) None)
               (F_Deduction (frequency v1) (confidence v1) (frequency v2) (confidence v2))
               (occurrence_time sp1))
            (Judgment s1 v1 a1 sp1) (Judgment s2 v2 a2 sp2))"
  by (simp add: Deduction_def getevidentialvalues_from2sentences_def)

lemma F_Deduction_C3_r: "F_Deduction 1 (9/10) 1 (9/10) = TruthValue 1 (81/100)"
  by (simp add: F_Deduction_def band_def)

lemma Deduction_C3_r_eternal: "Deduction C3_r1_eternal C3_r2 = Inr C3_r_eternal_result"
  unfolding C3_r1_eternal_def C3_r2_def C3_r_eternal_result_def Deduction_Judgments
  by (simp add: F_Deduction_C3_r merge2_def merge_sentence_evidential_base_into_self_def
      new_Judgment_def new_Stamp_def)

lemma Deduction_C3_r: "Deduction C3_r1 C3_r2 = Inr C3_r_result"
  unfolding C3_r1_def C3_r2_def C3_r_result_def Deduction_Judgments
  by (simp add: F_Deduction_C3_r merge2_def merge_sentence_evidential_base_into_self_def
      new_Judgment_def new_Stamp_def)

lemma Deduction_C3_q: "Deduction C3_q1 C3_r2 = Inr C3_q_result"
  unfolding C3_q1_def C3_r2_def C3_q_result_def
  by (simp add: Deduction_def merge2_def merge_sentence_evidential_base_into_self_def
      new_Question_def new_Stamp_def)

subsection \<open>The helper create\_resultant\_sentence\_two\_premise\<close>

lemma finish_occurrence_time:
  "occurrence_time (stamp (stamp_and_print_inference_rule
       (merge_sentence_evidential_base_into_self
          (merge_sentence_evidential_base_into_self r j1) j2) F ps))
   = occurrence_time (stamp r)"
  by (simp add: stamp_and_print_inference_rule_def merge_sentence_evidential_base_into_self_def)

lemma finish_statement:
  "statement (stamp_and_print_inference_rule
       (merge_sentence_evidential_base_into_self
          (merge_sentence_evidential_base_into_self r j1) j2) F ps)
   = statement r"
  by (simp add: stamp_and_print_inference_rule_def merge_sentence_evidential_base_into_self_def)

lemma finish_type_of:
  "type_of (stamp_and_print_inference_rule
       (merge_sentence_evidential_base_into_self
          (merge_sentence_evidential_base_into_self r j1) j2) F ps)
   = type_of r"
  by (simp add: stamp_and_print_inference_rule_def merge_sentence_evidential_base_into_self_def)

lemma result_occurrence_time_cases:
  "result_occurrence_time j1 j2 =
     (case (occurrence_time (stamp j1), occurrence_time (stamp j2)) of
        (Some t1, Some t2) \<Rightarrow> Some (max t1 t2)
      | (Some t1, None) \<Rightarrow> Some t1
      | (None, Some t2) \<Rightarrow> Some t2
      | (None, None) \<Rightarrow> None)"
  by (auto simp: result_occurrence_time_def max_def split: option.splits)

lemma create_resultant_sentence_two_premise_occurrence_time:
  assumes "create_resultant_sentence_two_premise simplify VP TA j1 j2 result_statement F = Inr r"
  shows "\<exists>st. simplify result_statement = Inr (Some st)
           \<and> statement r = st
           \<and> type_of r = premise_result_type j1 j2
           \<and> occurrence_time (stamp r) =
               (if type_of r \<noteq> Question_type \<and> may_need_occurrence_time st then
                  (case (occurrence_time (stamp j1), occurrence_time (stamp j2)) of
                     (Some t1, Some t2) \<Rightarrow> Some (max t1 t2)
                   | (Some t1, None) \<Rightarrow> Some t1
                   | (None, Some t2) \<Rightarrow> Some t2
                   | (None, None) \<Rightarrow> None)
                else None)"
proof -
  from assms obtain st where st: "simplify result_statement = Inr (Some st)"
    by (auto simp: create_resultant_sentence_two_premise_def Let_def
        split: sum.splits option.splits if_splits)
  let ?occ = "if may_need_occurrence_time st then result_occurrence_time j1 j2 else None"
  let ?fin = "\<lambda>result. stamp_and_print_inference_rule
                    (merge_sentence_evidential_base_into_self
                       (merge_sentence_evidential_base_into_self result j1) j2) F [j1, j2]"
  consider (q) "premise_result_type j1 j2 = Question_type"
    | (j) "premise_result_type j1 j2 = Judgment_type"
    | (g) "premise_result_type j1 j2 = Goal_type"
    by (cases "premise_result_type j1 j2") auto
  then show ?thesis
  proof cases
    case q
    with assms st have "r = ?fin (new_Question st)"
      by (simp add: create_resultant_sentence_two_premise_def Let_def)
    with q st show ?thesis
      by (simp add: finish_occurrence_time finish_statement finish_type_of new_Question_def
          new_Stamp_def)
  next
    case j
    with assms st obtain t arr where "r = ?fin (Judgment st t arr (new_Stamp ?occ))"
      by (auto simp: create_resultant_sentence_two_premise_def Let_def
          split: sum.splits option.splits if_splits prod.splits)
    with j st show ?thesis
      by (simp add: finish_occurrence_time finish_statement finish_type_of new_Stamp_def
          result_occurrence_time_cases)
  next
    case g
    with assms st obtain t arr where "r = ?fin (Goal st t arr (new_Stamp ?occ))"
      by (auto simp: create_resultant_sentence_two_premise_def Let_def
          split: sum.splits option.splits if_splits prod.splits)
    with g st show ?thesis
      by (simp add: finish_occurrence_time finish_statement finish_type_of new_Stamp_def
          result_occurrence_time_cases)
  qed
qed

text \<open>
  For two judgments without arrays the helper returns whenever its three absent
  collaborators do.
\<close>

lemma create_resultant_sentence_two_premise_returns:
  assumes "simplify result_statement = Inr (Some st)"
    and "\<And>t. \<exists>v. VP (Judgment s1 v1 None sp1) t = Inr v"
    and "\<And>f1 c1 f2 c2. \<exists>t. F f1 c1 f2 c2 = Inr t"
  shows "\<exists>r. create_resultant_sentence_two_premise simplify VP TA (Judgment s1 v1 None sp1)
            (Judgment s2 v2 None sp2) result_statement (Some (name, F)) = Inr r"
proof (cases "occurrence_time sp1 \<noteq> None \<and> occurrence_time sp2 \<noteq> None")
  case True
  then obtain t2 where t2: "occurrence_time sp2 = Some t2" by auto
  from assms(2) obtain v where v: "VP (Judgment s1 v1 None sp1) t2 = Inr v" by blast
  from assms(3) obtain t where t: "F (frequency v1) (confidence v1) (frequency v) (confidence v) = Inr t"
    by blast
  from True t2 v t assms(1) show ?thesis
    by (auto simp: create_resultant_sentence_two_premise_def premise_result_type_def
        is_event_def Let_def)
next
  case False
  from assms(3) obtain t where
    t: "F (frequency v1) (confidence v1) (frequency v2) (confidence v2) = Inr t"
    by blast
  from False t assms(1) show ?thesis
    by (auto simp: create_resultant_sentence_two_premise_def premise_result_type_def
        is_event_def Let_def)
qed

text \<open>A \<open>simplify\<close> that raises, as the failed lookup does, makes the helper raise.\<close>

lemma create_resultant_sentence_two_premise_raises:
  assumes "simplify result_statement = Inl e"
  shows "create_resultant_sentence_two_premise simplify VP TA j1 j2 result_statement F = Inl e"
  using assms by (simp add: create_resultant_sentence_two_premise_def)

lemma Value_Projection_C3:
  "Value_Projection_by_F_Projection 10 C3_j1 5 = Inr (TruthValue 1 (3/4))"
  "Value_Projection_by_F_Projection 10 C3_h1 5 = Inr (TruthValue 1 (3/4))"
  by (simp_all add: Value_Projection_by_F_Projection_def C3_j1_def C3_h1_def F_Projection_def)

lemma F_Deduction_C3: "F_Deduction 1 (9/10) 1 (3/4) = TruthValue 1 (27/40)"
  by (simp add: F_Deduction_def band_def)

lemma create_resultant_C3_h:
  "create_resultant_sentence_two_premise Term_simplify (Value_Projection_by_F_Projection 10)
       absent_array_function C3_h1 C3_h2
       (StatementTerm (AtomicTerm ''S'') (AtomicTerm ''P'') Implication None) C3_Deduction
     = Inr C3_h_result"
proof -
  have p: "Value_Projection_by_F_Projection 10
     (Judgment (StatementTerm (AtomicTerm ''M'') (AtomicTerm ''P'') Implication None)
       (TruthValue 1 (9/10)) None (Stamp (Some 3) [3] False False None [])) 5
     = Inr (TruthValue 1 (3/4))"
    using Value_Projection_C3(2) by (simp add: C3_h1_def)
  show ?thesis
    unfolding create_resultant_sentence_two_premise_def C3_h1_def C3_h2_def C3_h_result_def
      C3_Deduction_def
    by (simp add: p F_Deduction_C3 StatementTerm_init_def premise_result_type_def is_event_def
        new_Stamp_def stamp_and_print_inference_rule_def
        merge_sentence_evidential_base_into_self_def)
qed

lemma create_resultant_C3_j:
  "create_resultant_sentence_two_premise Term_simplify (Value_Projection_by_F_Projection 10)
       absent_array_function C3_j1 C3_j2
       (StatementTerm (AtomicTerm ''S'') (AtomicTerm ''P'') Inheritance None) C3_Deduction
     = Inr C3_j_result"
proof -
  have p: "Value_Projection_by_F_Projection 10
     (Judgment (StatementTerm (AtomicTerm ''M'') (AtomicTerm ''P'') Inheritance None)
       (TruthValue 1 (9/10)) None (Stamp (Some 3) [3] False False None [])) 5
     = Inr (TruthValue 1 (3/4))"
    using Value_Projection_C3(1) by (simp add: C3_j1_def)
  show ?thesis
    unfolding create_resultant_sentence_two_premise_def C3_j1_def C3_j2_def C3_j_result_def
      C3_Deduction_def
    by (simp add: p F_Deduction_C3 StatementTerm_init_def premise_result_type_def is_event_def
        new_Stamp_def stamp_and_print_inference_rule_def result_occurrence_time_def
        merge_sentence_evidential_base_into_self_def)
qed

subsection \<open>The claim\<close>

text \<open>
  Claim C3 (for every two-premise derivation the conclusion carries the occurrence time of
  the one premise that is an event, the later of the two times if both are events, and
  none if neither is).  \<open>Deduction\<close> from the eternal \<open>(M --> P)\<close> and the event
  \<open>(S --> M)\<close> at time 5 concludes an eternal \<open>(S --> P)\<close>, not one at time 5; from the
  events at times 3 and 5 it concludes \<open>(S --> P)\<close> at time 3, not at the later time 5;
  from the question stamped 3 and the event at time 5 it concludes a question without
  occurrence time.  The helper, from two events at times 3 and 5 whose conclusion is the
  implication \<open>(S ==> P)\<close>, builds a conclusion without occurrence time.
\<close>

theorem conclusion_not_later_event_time:
  "Deduction C3_r1_eternal C3_r2 = Inr C3_r_eternal_result
   \<and> occurrence_time (stamp C3_r1_eternal) = None
   \<and> occurrence_time (stamp C3_r2) = Some 5
   \<and> occurrence_time (stamp C3_r_eternal_result) = None
   \<and> Deduction C3_r1 C3_r2 = Inr C3_r_result
   \<and> occurrence_time (stamp C3_r1) = Some 3
   \<and> occurrence_time (stamp C3_r_result) = Some 3
   \<and> Deduction C3_q1 C3_r2 = Inr C3_q_result
   \<and> occurrence_time (stamp C3_q1) = Some 3
   \<and> occurrence_time (stamp C3_q_result) = None
   \<and> create_resultant_sentence_two_premise Term_simplify (Value_Projection_by_F_Projection 10)
       absent_array_function C3_h1 C3_h2
       (StatementTerm (AtomicTerm ''S'') (AtomicTerm ''P'') Implication None) C3_Deduction
     = Inr C3_h_result
   \<and> occurrence_time (stamp C3_h1) = Some 3
   \<and> occurrence_time (stamp C3_h2) = Some 5
   \<and> occurrence_time (stamp C3_h_result) = None"
  using Deduction_C3_r_eternal Deduction_C3_r Deduction_C3_q create_resultant_C3_h
  by (simp add: C3_r1_eternal_def C3_r1_def C3_q1_def C3_r2_def C3_r_eternal_result_def
      C3_r_result_def C3_q_result_def C3_h1_def C3_h2_def C3_h_result_def)

text \<open>
  Claim C3, amended.  A conclusion returned by one of the rule functions \<open>Revision\<close>,
  \<open>Deduction\<close>, \<open>Analogy\<close>, \<open>Resemblance\<close>, \<open>Abduction\<close>, \<open>Induction\<close>,
  \<open>Exemplification\<close> and \<open>Comparison\<close> of \<open>NALInferenceRules.py\<close> carries the occurrence
  time of the first premise \<open>j1\<close> (an event's time, or none) when it is a judgment, and
  none when it is a question; the second premise's time plays no part.  \<open>Deduction\<close>
  returns such a conclusion for every pair of judgments.  A conclusion returned by
  \<open>create_resultant_sentence_two_premise\<close> has the simplified result statement and the
  type given by \<open>premise_result_type\<close>; if it is a judgment or a goal and its statement
  is a first-order statement, or a compound that is not a statement and has a
  higher-order connector, it carries the occurrence time of the one premise that is an
  event, the later of the two times if both are events, and none if neither is; every
  other conclusion of the helper (a question, a higher-order statement) has no
  occurrence time.
\<close>

theorem conclusion_occurrence_time:
  "(R \<in> {Revision k, Deduction, Analogy, Resemblance, Abduction k, Induction k,
          Exemplification k, Comparison k} \<and> R j1 j2 = Inr r
      \<longrightarrow> occurrence_time (stamp r) =
            (if type_of r = Question_type then None else occurrence_time (stamp j1)))
   \<and> (\<exists>r. Deduction (Judgment s1 v1 a1 sp1) (Judgment s2 v2 a2 sp2) = Inr r
            \<and> type_of r = Judgment_type
            \<and> occurrence_time (stamp r) = occurrence_time sp1)
   \<and> (create_resultant_sentence_two_premise simplify VP TA h1 h2 result_statement F = Inr h
      \<longrightarrow> (\<exists>st. simplify result_statement = Inr (Some st)
             \<and> statement h = st
             \<and> type_of h = premise_result_type h1 h2
             \<and> occurrence_time (stamp h) =
                 (if type_of h \<noteq> Question_type \<and> may_need_occurrence_time st then
                    (case (occurrence_time (stamp h1), occurrence_time (stamp h2)) of
                       (Some t1, Some t2) \<Rightarrow> Some (max t1 t2)
                     | (Some t1, None) \<Rightarrow> Some t1
                     | (None, Some t2) \<Rightarrow> Some t2
                     | (None, None) \<Rightarrow> None)
                  else None)))"
proof (intro conjI impI)
  assume "R \<in> {Revision k, Deduction, Analogy, Resemblance, Abduction k, Induction k,
             Exemplification k, Comparison k} \<and> R j1 j2 = Inr r"
  then show "occurrence_time (stamp r) =
      (if type_of r = Question_type then None else occurrence_time (stamp j1))"
    using rules_occurrence_time [of R k j1 j2 r] by blast
next
  show "\<exists>r. Deduction (Judgment s1 v1 a1 sp1) (Judgment s2 v2 a2 sp2) = Inr r
          \<and> type_of r = Judgment_type
          \<and> occurrence_time (stamp r) = occurrence_time sp1"
    unfolding Deduction_Judgments by (simp add: merge2_new_Judgment)
next
  assume "create_resultant_sentence_two_premise simplify VP TA h1 h2 result_statement F = Inr h"
  then show "\<exists>st. simplify result_statement = Inr (Some st)
             \<and> statement h = st
             \<and> type_of h = premise_result_type h1 h2
             \<and> occurrence_time (stamp h) =
                 (if type_of h \<noteq> Question_type \<and> may_need_occurrence_time st then
                    (case (occurrence_time (stamp h1), occurrence_time (stamp h2)) of
                       (Some t1, Some t2) \<Rightarrow> Some (max t1 t2)
                     | (Some t1, None) \<Rightarrow> Some t1
                     | (None, Some t2) \<Rightarrow> Some t2
                     | (None, None) \<Rightarrow> None)
                  else None)"
    by (rule create_resultant_sentence_two_premise_occurrence_time)
qed

theorem conclusion_occurrence_time_witness:
  "Deduction C3_r1 C3_r2 = Inr C3_r_result
   \<and> occurrence_time (stamp C3_r1) = Some 3
   \<and> occurrence_time (stamp C3_r2) = Some 5
   \<and> occurrence_time (stamp C3_r_result) = Some 3
   \<and> create_resultant_sentence_two_premise Term_simplify (Value_Projection_by_F_Projection 10)
       absent_array_function C3_j1 C3_j2
       (StatementTerm (AtomicTerm ''S'') (AtomicTerm ''P'') Inheritance None) C3_Deduction
     = Inr C3_j_result
   \<and> occurrence_time (stamp C3_j1) = Some 3
   \<and> occurrence_time (stamp C3_j2) = Some 5
   \<and> occurrence_time (stamp C3_j_result) = Some 5"
proof -
  note inst = conclusion_occurrence_time [of Deduction 1 C3_r1 C3_r2 C3_r_result
      _ _ _ _ _ _ _ _ Term_simplify "Value_Projection_by_F_Projection 10" absent_array_function
      C3_j1 C3_j2 "StatementTerm (AtomicTerm ''S'') (AtomicTerm ''P'') Inheritance None"
      C3_Deduction C3_j_result]
  from inst Deduction_C3_r have "occurrence_time (stamp C3_r_result) = Some 3"
    by (simp add: C3_r1_def C3_r_result_def)
  moreover from inst create_resultant_C3_j
  have "occurrence_time (stamp C3_j_result) = Some 5"
    by (simp add: C3_j1_def C3_j2_def C3_j_result_def StatementTerm_init_def)
  ultimately show ?thesis
    using Deduction_C3_r create_resultant_C3_j by (simp add: C3_r2_def C3_r1_def C3_j1_def C3_j2_def)
qed

section \<open>The arrays and the lookup map of a bag\<close>

lemma np_where_in_range: "\<not> list_ex (\<lambda>i. length xs \<le> i) (np_where xs k)"
  by (auto simp: np_where_def list_ex_iff)

lemma filter_not_member_np_where:
  "filter (\<lambda>i. i \<notin> set (np_where xs k)) [0..<length xs]
     = filter (\<lambda>i. xs ! i \<noteq> k) [0..<length xs]"
  by (rule filter_cong) (auto simp: np_where_def)

lemma map_nth_filter: "map ((!) xs) (filter (\<lambda>i. P (xs ! i)) [0..<length xs]) = filter P xs"
proof -
  have "filter P (map ((!) xs) [0..<length xs]) = map ((!) xs) (filter (P \<circ> (!) xs) [0..<length xs])"
    by (rule filter_map)
  then show ?thesis by (simp add: map_nth o_def)
qed

lemma np_delete_where: "np_delete xs (np_where xs k) = Inr (filter (\<lambda>x. x \<noteq> k) xs)"
  using map_nth_filter [of xs "\<lambda>x. x \<noteq> k"]
  by (simp add: np_delete_def np_where_in_range filter_not_member_np_where)

lemma np_where_map_in_range:
  "\<not> list_ex (\<lambda>i. length (map g xs) \<le> i) (np_where xs k)"
  using np_where_in_range [of xs k] by simp

lemma np_delete_map_where:
  "np_delete (map g xs) (np_where xs k) = Inr (map g (filter (\<lambda>x. x \<noteq> k) xs))"
proof -
  have "map ((!) (map g xs)) (filter (\<lambda>i. xs ! i \<noteq> k) [0..<length xs])
        = map g (map ((!) xs) (filter (\<lambda>i. xs ! i \<noteq> k) [0..<length xs]))"
    by simp
  also have "\<dots> = map g (filter (\<lambda>x. x \<noteq> k) xs)"
    using map_nth_filter [of xs "\<lambda>x. x \<noteq> k"] by simp
  finally show ?thesis
    using np_where_map_in_range [of g xs k] filter_not_member_np_where [of xs k]
    by (simp add: np_delete_def)
qed


lemma sum_list_filter_distinct:
  fixes g :: "'a \<Rightarrow> real"
  shows "distinct xs \<Longrightarrow> k \<in> set xs
    \<Longrightarrow> sum_list (map g (filter (\<lambda>x. x \<noteq> k) xs)) = sum_list (map g xs) - g k"
proof (induction xs)
  case Nil
  then show ?case by simp
next
  case (Cons a xs)
  show ?case
  proof (cases "a = k")
    case True
    with Cons.prems have "k \<notin> set xs" by simp
    then have "filter (\<lambda>x. x \<noteq> k) xs = xs" by (auto simp: filter_id_conv)
    with True show ?thesis by simp
  next
    case False
    with Cons show ?thesis by simp
  qed
qed



lemma take_using_key_inv:
  assumes "bag_inv pw b"
  shows "bag_inv pw (snd (take_using_key pw b k))"
proof (cases "item_lookup_dict b k")
  case None
  with assms show ?thesis by (simp add: take_using_key_def)
next
  case (Some item)
  let ?m = "(item_lookup_dict b)(k := None)"
  let ?ks = "filter (\<lambda>x. x \<noteq> k) (item_keys b)"
  from assms have d: "distinct (item_keys b)" and s: "set (item_keys b) = dom (item_lookup_dict b)"
    and w: "weights b = map (weight_in pw (item_lookup_dict b)) (item_keys b)"
    and ws: "weights_sum b = sum_list (weights b)"
    by (simp_all add: bag_inv_def)
  from Some s have k: "k \<in> set (item_keys b)" by auto
  have m: "map (weight_in pw (item_lookup_dict b)) ?ks = map (weight_in pw ?m) ?ks"
    by (rule map_cong) (auto simp: weight_in_def)
  have "snd (take_using_key pw b k)
     = b\<lparr>item_lookup_dict := ?m, item_keys := ?ks,
         weights := map (weight_in pw (item_lookup_dict b)) ?ks,
         weights_sum := weights_sum b - pw (priority item)\<rparr>"
    using Some w np_delete_map_where [of "weight_in pw (item_lookup_dict b)" "item_keys b" k]
    by (simp add: take_using_key_def take_from_lookup_dict_def Let_def np_delete_where)
  then have r: "snd (take_using_key pw b k)
     = b\<lparr>item_lookup_dict := ?m, item_keys := ?ks,
         weights := map (weight_in pw ?m) ?ks,
         weights_sum := weights_sum b - pw (priority item)\<rparr>"
    by (simp only: m)
  have "sum_list (map (weight_in pw (item_lookup_dict b)) ?ks)
      = sum_list (weights b) - weight_in pw (item_lookup_dict b) k"
    using sum_list_filter_distinct [OF d k] w by simp
  moreover have "weight_in pw (item_lookup_dict b) k = pw (priority item)"
    using Some by (simp add: weight_in_def)
  ultimately have sm: "weights_sum b - pw (priority item)
      = sum_list (map (weight_in pw ?m) ?ks)"
    using ws by (simp only: m)
  show ?thesis
    unfolding r bag_inv_def
  proof (intro conjI)
    show "distinct (item_keys (b\<lparr>item_lookup_dict := ?m, item_keys := ?ks,
         weights := map (weight_in pw ?m) ?ks,
         weights_sum := weights_sum b - pw (priority item)\<rparr>))"
      using d by simp
    show "set (item_keys (b\<lparr>item_lookup_dict := ?m, item_keys := ?ks,
         weights := map (weight_in pw ?m) ?ks,
         weights_sum := weights_sum b - pw (priority item)\<rparr>))
       = dom (item_lookup_dict (b\<lparr>item_lookup_dict := ?m, item_keys := ?ks,
         weights := map (weight_in pw ?m) ?ks,
         weights_sum := weights_sum b - pw (priority item)\<rparr>))"
      using s by auto
  qed (simp_all add: sm)
qed

lemma bag_inv_ordered_items [simp]:
  "bag_inv pw (b\<lparr>ordered_items := d\<rparr>) = bag_inv pw b"
  by (simp add: bag_inv_def)


lemma take_min_inv:
  assumes "bag_inv pw b"
  shows "bag_inv pw (snd (take_min pw b))"
proof (cases "extract_min (ordered_items b)")
  case None
  with assms show ?thesis by (simp add: take_min_def)
next
  case (Some a)
  obtain item depq where a: "a = (item, depq)" by (cases a)
  from assms have "bag_inv pw (snd (take_using_key pw (b\<lparr>ordered_items := depq\<rparr>) (key item)))"
    by (simp add: take_using_key_inv)
  moreover have "snd (take_min pw b) = snd (take_using_key pw (b\<lparr>ordered_items := depq\<rparr>) (key item))"
    using Some a by (simp add: take_min_def split: prod.splits sum.splits)
  ultimately show ?thesis by simp
qed

lemma put_eq:
  "put pw b item =
     (if int (length (item_keys b)) + 1 > capacity b then
        (case take_min pw (put_appended pw b item) of
           (Inl e, b') \<Rightarrow> (Inl e, b')
         | (Inr purged_item, b') \<Rightarrow> (Inr item, b'))
      else (Inr item, put_appended pw b item))"
  by (simp add: put_def put_appended_def put_into_lookup_dict_def Let_def)

lemma put_appended_inv:
  assumes "bag_inv pw b" and "item_lookup_dict b (key item) = None"
  shows "bag_inv pw (put_appended pw b item)"
proof -
  let ?m = "(item_lookup_dict b)(key item \<mapsto> item)"
  from assms have d: "distinct (item_keys b)" and s: "set (item_keys b) = dom (item_lookup_dict b)"
    and w: "weights b = map (weight_in pw (item_lookup_dict b)) (item_keys b)"
    and ws: "weights_sum b = sum_list (weights b)"
    by (simp_all add: bag_inv_def)
  from assms(2) s have k: "key item \<notin> set (item_keys b)" by auto
  have m: "map (weight_in pw (item_lookup_dict b)) (item_keys b) = map (weight_in pw ?m) (item_keys b)"
    by (rule map_cong) (use k in \<open>auto simp: weight_in_def\<close>)
  have n: "weight_in pw ?m (key item) = pw (priority item)"
    by (simp add: weight_in_def)
  have w': "weights b @ [pw (priority item)] = map (weight_in pw ?m) (item_keys b @ [key item])"
    using w n by (simp add: m)
  show ?thesis
    unfolding put_appended_def bag_inv_def
    using d s k ws w' by simp
qed

lemma put_inv:
  assumes "bag_inv pw b" and "item_lookup_dict b (key item) = None"
  shows "bag_inv pw (snd (put pw b item))"
proof -
  have a: "bag_inv pw (put_appended pw b item)"
    using assms by (rule put_appended_inv)
  have "snd (put pw b item) = put_appended pw b item
      \<or> snd (put pw b item) = snd (take_min pw (put_appended pw b item))"
    by (auto simp: put_eq split: prod.splits sum.splits)
  with a take_min_inv [OF a] show ?thesis by auto
qed

lemma Bag_init_inv: "bag_inv pw (Bag_init c)"
  by (simp add: bag_inv_def Bag_init_def)



lemma C4_bag_eq:
  "C4_bag = \<lparr>item_keys = [''A''], weights = [1/10], weights_sum = 1/10,
      ordered_items = [(1/10, C4_A)], item_lookup_dict = [''A'' \<mapsto> C4_A], capacity = 1\<rparr>"
  by (simp add: C4_bag_def put_def Bag_init_def put_into_lookup_dict_def insert_object_def
      identity_weight_def C4_A_def Let_def)

lemma put_C4_B:
  "put identity_weight C4_bag C4_B =
     (Inr C4_B,
      \<lparr>item_keys = [''B''], weights = [9/10], weights_sum = 9/10,
       ordered_items = [(9/10, C4_B)], item_lookup_dict = [''B'' \<mapsto> C4_B], capacity = 1\<rparr>)"
  apply (simp add: C4_bag_eq put_def put_into_lookup_dict_def insert_object_def
      identity_weight_def Let_def take_min_def extract_min_def)
  apply (simp add: C4_A_def C4_B_def take_using_key_def take_from_lookup_dict_def np_where_def
        np_delete_def Let_def upt_rec identity_weight_def)
  done

section \<open>The order structure of a bag\<close>

lemma take_using_key_Some:
  assumes "bag_inv pw b" and "item_lookup_dict b k = Some item"
  shows "take_using_key pw b k =
     (Inr item,
      b\<lparr>item_lookup_dict := (item_lookup_dict b)(k := None),
        item_keys := filter (\<lambda>x. x \<noteq> k) (item_keys b),
        weights := map (weight_in pw (item_lookup_dict b)) (filter (\<lambda>x. x \<noteq> k) (item_keys b)),
        weights_sum := weights_sum b - pw (priority item)\<rparr>)"
proof -
  from assms(1) have w: "weights b = map (weight_in pw (item_lookup_dict b)) (item_keys b)"
    by (simp add: bag_inv_def)
  show ?thesis
    using assms(2) w np_delete_map_where [of "weight_in pw (item_lookup_dict b)" "item_keys b" k]
    by (simp add: take_using_key_def take_from_lookup_dict_def Let_def np_delete_where)
qed

lemma length_filter_neq_distinct:
  "distinct xs \<Longrightarrow> k \<in> set xs \<Longrightarrow> length (filter (\<lambda>x. x \<noteq> k) xs) = length xs - 1"
proof (induction xs)
  case Nil
  then show ?case by simp
next
  case (Cons a xs)
  show ?case
  proof (cases "a = k")
    case True
    with Cons.prems have "k \<notin> set xs" by simp
    then have "filter (\<lambda>x. x \<noteq> k) xs = xs" by (auto simp: filter_id_conv)
    with True show ?thesis by simp
  next
    case False
    with Cons have "length (filter (\<lambda>x. x \<noteq> k) xs) = length xs - 1" and "k \<in> set xs" by simp_all
    moreover from this(2) have "length xs > 0" by auto
    ultimately show ?thesis using False by simp
  qed
qed

text \<open>
  \<open>_take_min\<close> on a bag whose order structure is in step: the head of the queue is an
  item of the bag of least priority, and it is taken from the bag.
\<close>

lemma take_min_in_sync:
  assumes inv: "bag_inv pw b" and sync: "depq_in_sync b" and oi: "ordered_items b = e # d"
  shows "take_min pw b =
     (Inr (snd e),
      b\<lparr>ordered_items := d,
        item_lookup_dict := (item_lookup_dict b)(key (snd e) := None),
        item_keys := filter (\<lambda>x. x \<noteq> key (snd e)) (item_keys b),
        weights := map (weight_in pw (item_lookup_dict b))
                     (filter (\<lambda>x. x \<noteq> key (snd e)) (item_keys b)),
        weights_sum := weights_sum b - pw (priority (snd e))\<rparr>)"
    and "item_lookup_dict b (key (snd e)) = Some (snd e)"
    and "\<And>k other. item_lookup_dict b k = Some other \<Longrightarrow> priority (snd e) \<le> priority other"
    and "depq_in_sync (snd (take_min pw b))"
proof -
  note s = sync [unfolded depq_in_sync_def oi]
  from s have srt: "sorted (map fst (e # d))" by (rule conjunct1)
  from s have dst: "distinct (e # d)" by (rule conjunct2 [THEN conjunct1])
  from s have all: "\<forall>x \<in> set (e # d).
      item_lookup_dict b (key (snd x)) = Some (snd x) \<and> fst x = priority (snd x)"
    by (rule conjunct2 [THEN conjunct2, THEN conjunct1])
  from s have items: "\<forall>k item. item_lookup_dict b k = Some item
      \<longrightarrow> key item = k \<and> (priority item, item) \<in> set (e # d)"
    by (rule conjunct2 [THEN conjunct2, THEN conjunct2])
  have ent: "item_lookup_dict b (key (snd x)) = Some (snd x) \<and> fst x = priority (snd x)"
    if "x \<in> set (e # d)" for x
    using all that by blast
  have entry: "key item = k \<and> (priority item, item) \<in> set (e # d)"
    if "item_lookup_dict b k = Some item" for k item
    using items that by blast
  from ent [of e] show look: "item_lookup_dict b (key (snd e)) = Some (snd e)" by simp
  from ent [of e] have pe: "fst e = priority (snd e)" by simp
  have inv': "bag_inv pw (b\<lparr>ordered_items := d\<rparr>)" using inv by simp
  have look': "item_lookup_dict (b\<lparr>ordered_items := d\<rparr>) (key (snd e)) = Some (snd e)"
    using look by simp
  show tm: "take_min pw b =
     (Inr (snd e),
      b\<lparr>ordered_items := d,
        item_lookup_dict := (item_lookup_dict b)(key (snd e) := None),
        item_keys := filter (\<lambda>x. x \<noteq> key (snd e)) (item_keys b),
        weights := map (weight_in pw (item_lookup_dict b))
                     (filter (\<lambda>x. x \<noteq> key (snd e)) (item_keys b)),
        weights_sum := weights_sum b - pw (priority (snd e))\<rparr>)"
    using take_using_key_Some [OF inv' look'] by (simp add: take_min_def extract_min_def oi)
  show "priority (snd e) \<le> priority other" if "item_lookup_dict b k = Some other" for k other
  proof -
    from entry [OF that] have x: "(priority other, other) \<in> set (e # d)" by simp
    from srt have "\<forall>x \<in> set (e # d). fst e \<le> fst x" by auto
    with x have "fst e \<le> fst (priority other, other)" by blast
    with pe show ?thesis by simp
  qed
  have other_key: "key (snd x) \<noteq> key (snd e)" if "x \<in> set d" for x
  proof
    assume k: "key (snd x) = key (snd e)"
    from that have x: "x \<in> set (e # d)" by simp
    from ent [OF x] k look have "snd x = snd e" by simp
    moreover from ent [OF x] this pe have "fst x = fst e" by simp
    ultimately have "x = e" by (simp add: prod_eq_iff)
    with that dst show False by simp
  qed
  have a: "\<forall>x \<in> set d. ((item_lookup_dict b)(key (snd e) := None)) (key (snd x)) = Some (snd x)
                    \<and> fst x = priority (snd x)"
  proof
    fix x
    assume x: "x \<in> set d"
    then have "x \<in> set (e # d)" by simp
    from ent [OF this] other_key [OF x]
    show "((item_lookup_dict b)(key (snd e) := None)) (key (snd x)) = Some (snd x)
            \<and> fst x = priority (snd x)"
      by simp
  qed
  have b: "\<forall>k item. ((item_lookup_dict b)(key (snd e) := None)) k = Some item
           \<longrightarrow> key item = k \<and> (priority item, item) \<in> set d"
  proof (intro allI impI)
    fix k item
    assume "((item_lookup_dict b)(key (snd e) := None)) k = Some item"
    then have k: "k \<noteq> key (snd e)" and l: "item_lookup_dict b k = Some item"
      by (simp_all split: if_splits)
    from entry [OF l] have ki: "key item = k" and x: "(priority item, item) \<in> set (e # d)"
      by simp_all
    have "(priority item, item) \<noteq> e"
    proof
      assume "(priority item, item) = e"
      then have "snd e = item" by auto
      with ki k show False by simp
    qed
    with x have "(priority item, item) \<in> set d" by auto
    with ki show "key item = k \<and> (priority item, item) \<in> set d" by simp
  qed
  from srt have c: "sorted (map fst d)" by simp
  from dst have d: "distinct d" by simp
  have oi': "ordered_items (snd (take_min pw b)) = d"
    and lk': "item_lookup_dict (snd (take_min pw b)) = (item_lookup_dict b)(key (snd e) := None)"
    by (simp_all add: tm)
  show "depq_in_sync (snd (take_min pw b))"
    unfolding depq_in_sync_def oi' lk' by (intro conjI a b c d)
qed

lemma put_appended_sync:
  assumes sync: "depq_in_sync b" and new: "item_lookup_dict b (key item) = None"
  shows "depq_in_sync (put_appended pw b item)"
proof -
  let ?m = "(item_lookup_dict b)(key item \<mapsto> item)"
  let ?d = "insert_object (ordered_items b) item (priority item)"
  note s = sync [unfolded depq_in_sync_def]
  from s have srt: "sorted (map fst (ordered_items b))" by (rule conjunct1)
  from s have dst: "distinct (ordered_items b)" by (rule conjunct2 [THEN conjunct1])
  from s have all: "\<forall>x \<in> set (ordered_items b).
      item_lookup_dict b (key (snd x)) = Some (snd x) \<and> fst x = priority (snd x)"
    by (rule conjunct2 [THEN conjunct2, THEN conjunct1])
  from s have items: "\<forall>k item. item_lookup_dict b k = Some item
      \<longrightarrow> key item = k \<and> (priority item, item) \<in> set (ordered_items b)"
    by (rule conjunct2 [THEN conjunct2, THEN conjunct2])
  have ent: "item_lookup_dict b (key (snd x)) = Some (snd x) \<and> fst x = priority (snd x)"
    if "x \<in> set (ordered_items b)" for x
    using all that by blast
  have set_d: "set ?d = insert (priority item, item) (set (ordered_items b))"
    by (simp add: insert_object_def set_insort_key)
  have fresh: "(priority item, item) \<notin> set (ordered_items b)"
  proof
    assume "(priority item, item) \<in> set (ordered_items b)"
    from ent [OF this] new show False by simp
  qed
  have a: "sorted (map fst ?d)"
    using srt by (simp add: insert_object_def sorted_insort_key)
  have b: "distinct ?d"
    using dst fresh by (simp add: insert_object_def distinct_insort)
  have c: "\<forall>x \<in> set ?d. ?m (key (snd x)) = Some (snd x) \<and> fst x = priority (snd x)"
  proof
    fix x
    assume "x \<in> set ?d"
    with set_d consider "x = (priority item, item)" | "x \<in> set (ordered_items b)" by auto
    then show "?m (key (snd x)) = Some (snd x) \<and> fst x = priority (snd x)"
    proof cases
      case 1
      then show ?thesis by simp
    next
      case 2
      from ent [OF 2] new have "key (snd x) \<noteq> key item" by auto
      with ent [OF 2] show ?thesis by simp
    qed
  qed
  have d: "\<forall>k other. ?m k = Some other \<longrightarrow> key other = k \<and> (priority other, other) \<in> set ?d"
  proof (intro allI impI)
    fix k other
    assume m: "?m k = Some other"
    show "key other = k \<and> (priority other, other) \<in> set ?d"
    proof (cases "k = key item")
      case True
      with m have "other = item" by simp
      with True set_d show ?thesis by simp
    next
      case False
      with m have "item_lookup_dict b k = Some other" by simp
      with items have "key other = k \<and> (priority other, other) \<in> set (ordered_items b)"
        by blast
      with set_d show ?thesis by simp
    qed
  qed
  have oi': "ordered_items (put_appended pw b item) = ?d"
    and lk': "item_lookup_dict (put_appended pw b item) = ?m"
    by (simp_all add: put_appended_def)
  show ?thesis
    unfolding depq_in_sync_def oi' lk' by (intro conjI a b c d)
qed

lemma put_in_sync:
  assumes inv: "bag_inv pw b" and sync: "depq_in_sync b"
    and new: "item_lookup_dict b (key item) = None"
  shows "depq_in_sync (snd (put pw b item))"
proof -
  let ?b = "put_appended pw b item"
  have inv': "bag_inv pw ?b" using inv new by (rule put_appended_inv)
  have sync': "depq_in_sync ?b" using sync new by (rule put_appended_sync)
  have "set (ordered_items ?b) \<noteq> {}"
    by (simp add: put_appended_def insert_object_def set_insort_key)
  then obtain e d where oi: "ordered_items ?b = e # d"
    by (cases "ordered_items ?b") auto
  note tm = take_min_in_sync [OF inv' sync' oi]
  show ?thesis
  proof (cases "int (length (item_keys b)) + 1 > capacity b")
    case True
    then have "snd (put pw b item) = snd (take_min pw ?b)"
      by (simp add: put_eq tm(1))
    with tm(4) show ?thesis by simp
  next
    case False
    with sync' show ?thesis by (simp add: put_eq)
  qed
qed

text \<open>A bag built from the empty bag by puts of new items has both properties.\<close>

lemma Bag_init_sync: "depq_in_sync (Bag_init c)"
  by (simp add: depq_in_sync_def Bag_init_def)

lemma puts_in_sync:
  "bag_inv pw b \<Longrightarrow> depq_in_sync b \<Longrightarrow> puts_are_new pw b (map Put items)
     \<Longrightarrow> bag_inv pw (run pw b (map Put items)) \<and> depq_in_sync (run pw b (map Put items))"
proof (induction items arbitrary: b)
  case Nil
  then show ?case by simp
next
  case (Cons item items)
  from Cons.prems have new: "item_lookup_dict b (key item) = None" by simp
  from Cons.prems(1) new have "bag_inv pw (snd (put pw b item))" by (rule put_inv)
  moreover from Cons.prems(1,2) new have "depq_in_sync (snd (put pw b item))" by (rule put_in_sync)
  moreover from Cons.prems(3) have "puts_are_new pw (snd (put pw b item)) (map Put items)" by simp
  ultimately show ?case using Cons.IH by simp
qed

lemma puts_are_new_append:
  "puts_are_new pw b (xs @ ys) \<longleftrightarrow> puts_are_new pw b xs \<and> puts_are_new pw (run pw b xs) ys"
  by (induction xs arbitrary: b) auto


section \<open>Eviction from a full bag\<close>

lemma put_evicts_minimum_in_sync:
  assumes inv: "bag_inv pw b" and sync: "depq_in_sync b"
    and new: "item_lookup_dict b (key item) = None"
    and over: "int (length (item_keys b)) + 1 > capacity b"
  shows "\<exists>evicted.
           fst (put pw b item) = Inr item
           \<and> ((item_lookup_dict b)(key item \<mapsto> item)) (key evicted) = Some evicted
           \<and> (\<forall>other \<in> ran ((item_lookup_dict b)(key item \<mapsto> item)).
                 priority evicted \<le> priority other)
           \<and> item_lookup_dict (snd (put pw b item))
               = ((item_lookup_dict b)(key item \<mapsto> item))(key evicted := None)
           \<and> item_keys (snd (put pw b item))
               = filter (\<lambda>x. x \<noteq> key evicted) (item_keys b @ [key item])
           \<and> length (item_keys (snd (put pw b item))) = length (item_keys b)"
proof -
  let ?m = "(item_lookup_dict b)(key item \<mapsto> item)"
  let ?b = "put_appended pw b item"
  have inv': "bag_inv pw ?b" using inv new by (rule put_appended_inv)
  have sync': "depq_in_sync ?b" using sync new by (rule put_appended_sync)
  have "set (ordered_items ?b) \<noteq> {}"
    by (simp add: put_appended_def insert_object_def set_insort_key)
  then obtain e d where oi: "ordered_items ?b = e # d"
    by (cases "ordered_items ?b") auto
  note tm = take_min_in_sync [OF inv' sync' oi]
  have m: "item_lookup_dict ?b = ?m" and ks: "item_keys ?b = item_keys b @ [key item]"
    by (simp_all add: put_appended_def)
  have p: "put pw b item = (Inr item, snd (take_min pw ?b))"
    using over by (simp add: put_eq tm(1))
  have r1: "fst (put pw b item) = Inr item" by (simp add: p)
  have ev: "?m (key (snd e)) = Some (snd e)" using tm(2) by (simp only: m)
  have least: "priority (snd e) \<le> priority other" if "other \<in> ran ?m" for other
  proof -
    from that obtain k where "?m k = Some other" unfolding ran_def by blast
    then have "item_lookup_dict ?b k = Some other" by (simp only: m)
    then show ?thesis by (rule tm(3))
  qed
  have r2: "item_lookup_dict (snd (put pw b item)) = ?m(key (snd e) := None)"
    unfolding p by (simp add: tm(1) m)
  have r3: "item_keys (snd (put pw b item))
      = filter (\<lambda>x. x \<noteq> key (snd e)) (item_keys b @ [key item])"
    unfolding p by (simp add: tm(1) ks)
  have d': "distinct (item_keys b @ [key item])" and s': "set (item_keys b @ [key item]) = dom ?m"
    using inv' by (simp_all add: bag_inv_def put_appended_def)
  from ev s' have "key (snd e) \<in> set (item_keys b @ [key item])" by auto
  from d' this have "length (filter (\<lambda>x. x \<noteq> key (snd e)) (item_keys b @ [key item]))
      = length (item_keys b @ [key item]) - 1"
    by (rule length_filter_neq_distinct)
  with r3 have r4: "length (item_keys (snd (put pw b item))) = length (item_keys b)"
    by simp
  show ?thesis
  proof (intro exI [where x = "snd e"] conjI ballI)
    show "fst (put pw b item) = Inr item" by (rule r1)
    show "?m (key (snd e)) = Some (snd e)" by (rule ev)
    show "priority (snd e) \<le> priority other" if "other \<in> ran ?m" for other
      using that by (rule least)
    show "item_lookup_dict (snd (put pw b item)) = ?m(key (snd e) := None)" by (rule r2)
    show "item_keys (snd (put pw b item))
      = filter (\<lambda>x. x \<noteq> key (snd e)) (item_keys b @ [key item])" by (rule r3)
    show "length (item_keys (snd (put pw b item))) = length (item_keys b)" by (rule r4)
  qed
qed

lemma C4_bag_run: "C4_bag = run identity_weight (Bag_init 1) (map Put [C4_A])"
  by (simp add: C4_bag_def)

lemma C4_puts_are_new:
  "puts_are_new identity_weight (Bag_init 1) (map Put [C4_A] @ [Put C4_B])"
  using C4_bag_eq
  by (simp add: C4_bag_def Bag_init_def C4_B_def)

text \<open>
  Claim C4 (when the size of a bag exceeds its capacity after an insertion, \<open>put\<close>
  removes the minimum-priority element and returns that evicted element).  A bag of
  capacity 1 holds \<open>A\<close> at priority 0.1; \<open>put\<close> of \<open>B\<close> at priority 0.9 evicts \<open>A\<close> and
  returns \<open>B\<close>, the item just placed, which is still in the bag.
\<close>

theorem put_returns_the_new_item:
  "item_lookup_dict C4_bag ''A'' = Some C4_A
   \<and> int (length (item_keys C4_bag)) + 1 > capacity C4_bag
   \<and> fst (put identity_weight C4_bag C4_B) = Inr C4_B
   \<and> item_lookup_dict (snd (put identity_weight C4_bag C4_B)) ''A'' = None
   \<and> item_lookup_dict (snd (put identity_weight C4_bag C4_B)) ''B'' = Some C4_B
   \<and> C4_B \<noteq> C4_A"
  by (simp add: put_C4_B) (simp add: C4_bag_eq C4_A_def C4_B_def)

text \<open>
  Claim C4, amended.  For a bag built from the empty bag by puts of new items (items
  whose key is not in the bag), a \<open>put\<close> of a new item that takes the size over the
  capacity returns the item just placed; it removes from the bag one element whose
  priority is least among the elements of the bag, the new item included, and leaves
  the size as it was before the call.
\<close>

theorem put_evicts_minimum:
  assumes "puts_are_new pw (Bag_init c) (map Put items @ [Put item])"
    and "b = run pw (Bag_init c) (map Put items)"
    and "int (length (item_keys b)) + 1 > capacity b"
  shows "\<exists>evicted.
           fst (put pw b item) = Inr item
           \<and> ((item_lookup_dict b)(key item \<mapsto> item)) (key evicted) = Some evicted
           \<and> (\<forall>other \<in> ran ((item_lookup_dict b)(key item \<mapsto> item)).
                 priority evicted \<le> priority other)
           \<and> item_lookup_dict (snd (put pw b item))
               = ((item_lookup_dict b)(key item \<mapsto> item))(key evicted := None)
           \<and> item_keys (snd (put pw b item))
               = filter (\<lambda>x. x \<noteq> key evicted) (item_keys b @ [key item])
           \<and> length (item_keys (snd (put pw b item))) = length (item_keys b)"
proof -
  from assms(1) have n1: "puts_are_new pw (Bag_init c) (map Put items)"
    and n2: "puts_are_new pw (run pw (Bag_init c) (map Put items)) [Put item]"
    by (simp_all only: puts_are_new_append)
  from puts_in_sync [OF Bag_init_inv Bag_init_sync n1] assms(2)
  have inv: "bag_inv pw b" and sync: "depq_in_sync b" by simp_all
  from n2 assms(2) have new: "item_lookup_dict b (key item) = None" by simp
  from inv sync new assms(3) show ?thesis by (rule put_evicts_minimum_in_sync)
qed

theorem put_evicts_minimum_witness:
  "puts_are_new identity_weight (Bag_init 1) (map Put [C4_A] @ [Put C4_B])
   \<and> C4_bag = run identity_weight (Bag_init 1) (map Put [C4_A])
   \<and> int (length (item_keys C4_bag)) + 1 > capacity C4_bag
   \<and> (\<exists>evicted.
           fst (put identity_weight C4_bag C4_B) = Inr C4_B
           \<and> ((item_lookup_dict C4_bag)(key C4_B \<mapsto> C4_B)) (key evicted) = Some evicted
           \<and> (\<forall>other \<in> ran ((item_lookup_dict C4_bag)(key C4_B \<mapsto> C4_B)).
                 priority evicted \<le> priority other)
           \<and> item_lookup_dict (snd (put identity_weight C4_bag C4_B))
               = ((item_lookup_dict C4_bag)(key C4_B \<mapsto> C4_B))(key evicted := None)
           \<and> item_keys (snd (put identity_weight C4_bag C4_B))
               = filter (\<lambda>x. x \<noteq> key evicted) (item_keys C4_bag @ [key C4_B])
           \<and> length (item_keys (snd (put identity_weight C4_bag C4_B)))
               = length (item_keys C4_bag))"
proof -
  have over: "int (length (item_keys C4_bag)) + 1 > capacity C4_bag"
    by (simp add: C4_bag_eq)
  from put_evicts_minimum [OF C4_puts_are_new C4_bag_run over] C4_puts_are_new C4_bag_run over
  show ?thesis by (intro conjI)
qed

section \<open>The invariants of a bag\<close>







end
